theory Spec2Isabelle
  imports Complex_Main "HOL-Library.Word" "HOL-Library.Sublist"
begin

unbundle bit_operations_syntax

section \<open>RDF terms, triples and graphs\<close>

text \<open>
  The terms of rdflib: \<open>URIRef\<close>, \<open>Literal\<close> (lexical form, datatype IRI, language tag)
  and \<open>BNode\<close> (its identifier). A triple is a tuple of three terms.
\<close>

datatype rdf_term =
    URIRef string
  | Literal string "string option" "string option"
  | BNode string

type_synonym triple = "rdf_term \<times> rdf_term \<times> rdf_term"

text \<open>
  A \<open>Graph\<close> holds a set of triples. Its content is kept as the list of the triples in
  insertion order; \<open>Graph.add\<close> leaves a graph that already has the triple as it is, so
  \<open>len(graph)\<close> is the length of the list.
\<close>

type_synonym rdf_graph = "triple list"

definition graph_add :: "triple \<Rightarrow> rdf_graph \<Rightarrow> rdf_graph" where
  "graph_add t g = (if t \<in> set g then g else g @ [t])"

definition add_all :: "triple list \<Rightarrow> rdf_graph \<Rightarrow> rdf_graph" where
  \<comment> \<open>\<open>for t in ts: g.add(t)\<close>\<close>
  "add_all ts g = foldl (\<lambda>acc t. graph_add t acc) g ts"

definition len :: "rdf_graph \<Rightarrow> int" where
  "len g = int (length g)"

subsection \<open>Namespaces\<close>

definition OMNII :: "string \<Rightarrow> rdf_term" where
  "OMNII n = URIRef (''https://omnii.ai/ontology#'' @ n)"

definition CONV :: "string \<Rightarrow> rdf_term" where
  "CONV n = URIRef (''https://omnii.ai/conversation#'' @ n)"

definition CONCEPT :: "string \<Rightarrow> rdf_term" where
  "CONCEPT n = URIRef (''https://omnii.ai/concept#'' @ n)"

definition TEMPORAL :: "string \<Rightarrow> rdf_term" where
  "TEMPORAL n = URIRef (''https://omnii.ai/temporal#'' @ n)"

definition RDF :: "string \<Rightarrow> rdf_term" where
  "RDF n = URIRef (''http://www.w3.org/1999/02/22-rdf-syntax-ns#'' @ n)"

definition RDFS :: "string \<Rightarrow> rdf_term" where
  "RDFS n = URIRef (''http://www.w3.org/2000/01/rdf-schema#'' @ n)"

definition OWL :: "string \<Rightarrow> rdf_term" where
  "OWL n = URIRef (''http://www.w3.org/2002/07/owl#'' @ n)"

section \<open>Requests and responses\<close>

datatype py_error = PyException string

fun str_of_error :: "py_error \<Rightarrow> string" where
  "str_of_error (PyException m) = m"

record BrainContext =
  user_id :: string
  channel :: string
  memory_window_hours :: int
  include_working_memory :: bool
  include_episodic_memory :: bool
  include_semantic_memory :: bool
  temporal_reasoning :: bool

record QueryRequest =
  query :: string
  query_type :: string
  reasoning :: bool
  timeout :: int
  limit :: int
  namespaces :: "(string \<times> string) list option"
  brain_context :: "BrainContext option"
  query_hash :: "string option"

text \<open>One bound variable of a result row, as \<open>execute_sparql_query\<close> shapes it.\<close>

datatype binding_value =
    UriValue string
  | LiteralValue string "string option" "string option"
  | BlankValue string

type_synonym result_row = "(string \<times> binding_value) list"

record insight =
  insight_concept_id :: string
  insight_type :: string
  confidence :: rat
  description :: string

record brain_memory_integration =
  concepts_analyzed :: int
  memory_contexts_used :: int
  temporal_reasoning_applied :: bool
  concept_evolutions_triggered :: int
  neo4j_updates_queued :: int

text \<open>
  \<open>QueryResponse\<close> without \<open>execution_time_ms\<close>: the wall clock is outside this
  development. The response's \<open>query_hash\<close> field is \<open>response_hash\<close> here.
\<close>

record QueryResponse =
  success :: bool
  results :: "result_row list"
  reasoning_applied :: bool
  response_hash :: string
  total_results :: int
  error :: "string option"
  integration :: "brain_memory_integration option"
  concept_insights :: "insight list option"

record RDFImportRequest =
  data :: string
  format :: string
  validation :: bool
  clear_graph :: bool
  named_graph :: "string option"

text \<open>The dictionary \<open>import_rdf_data\<close> returns.\<close>

record ImportResult =
  import_success :: bool
  triples_imported :: int
  total_triples :: "int option"
  import_format :: "string option"
  import_error :: "string option"

text \<open>
  A value of a JSON request body (\<open>Dict[str, Any]\<close>); a float is the rational number it
  stands for.
\<close>

datatype py_value =
    PyNone
  | PyBool bool
  | PyInt int
  | PyFloat rat
  | PyStr string
  | PyList "py_value list"
  | PyDict "(string \<times> py_value) list"

record ConceptEvolutionRequest =
  concept_id :: string
  concept_name :: string
  current_properties :: "(string \<times> py_value) list"
  new_information :: "(string \<times> py_value) list list"
  evidence_sources :: "(string \<times> py_value) list list"
  brain_memory_context :: "(string \<times> py_value) list"
  reasoning_depth :: string
  validation_required :: bool
  full_brain_context :: "(string \<times> py_value) list option"

record change =
  changed_property :: string
  old_value :: string
  new_value :: string
  evidence_strength :: rat
  temporal_context :: string

text \<open>The dictionary \<open>evolve_concept\<close> returns, its constant entries left out.\<close>

record EvolutionResult =
  evolution_success :: bool
  result_concept_id :: string
  evolution_applied :: bool
  confidence_score :: rat
  changes_detected :: "change list"
  reasoning_chain :: "string list"
  memory_consolidation_triggered :: "bool option"
  evolution_error :: "string option"

section \<open>The libraries the service calls\<close>

text \<open>
  rdflib and owlrl are not part of the repository; what the service calls of them is a
  parameter of every operation.
  \<^item> \<open>parse\<close>: \<open>Graph.parse(data=, format=)\<close>. The parser hands triples to the graph
    while it reads, so a parse gives the triples it delivered and, when it raised, the
    exception.
  \<^item> \<open>prepareQuery\<close>, \<open>PV\<close> (the projected variables of a prepared query) and
    \<open>graph_query\<close> (\<open>Graph.query\<close>, the solution rows in the order the engine yields
    them).
  \<^item> \<open>term_bool\<close>: the truth value of a term in \<open>if value:\<close>.
  \<^item> \<open>rules\<close> and \<open>iteration_cap\<close>: the rule set of the reasoner, as the triples one
    round of rule application derives from a graph, and the bound on the number of rounds.
  \<^item> \<open>to_uriref\<close> and \<open>to_literal\<close>: \<open>URIRef(x)\<close> and \<open>Literal(x)\<close> for a value \<open>x\<close>
    that is not a string; \<open>py_str\<close>: \<open>str(x)\<close>.
\<close>

record 'q library =
  parse :: "string \<Rightarrow> string \<Rightarrow> triple list \<times> py_error option"
  prepareQuery :: "string \<Rightarrow> py_error + 'q"
  PV :: "'q \<Rightarrow> string list"
  graph_query :: "rdf_graph \<Rightarrow> 'q \<Rightarrow> py_error + (string \<times> rdf_term) list list"
  term_bool :: "rdf_term \<Rightarrow> bool"
  rules :: "rdf_graph \<Rightarrow> triple list"
  iteration_cap :: nat
  to_uriref :: "py_value \<Rightarrow> py_error + rdf_term"
  to_literal :: "py_value \<Rightarrow> rdf_term"
  py_str :: "py_value \<Rightarrow> string"

section \<open>The service state\<close>

text \<open>
  The Redis server as the service sees it: the keys with their time to live and value
  (a stored response stands for its JSON text), and whether commands reach the server;
  a command that does not raises, and every use of the client is inside a
  \<open>try\<close>/\<open>except\<close>.
\<close>

record cache_entry =
  ttl :: nat
  payload :: QueryResponse

record redis =
  store :: "(string \<times> cache_entry) list"
  responsive :: bool

text \<open>
  \<open>Graph\<close> objects live in a store of graphs, addressed by their position: \<open>Graph()\<close>
  appends an empty graph and gives its address. \<open>graph\<close> is the address held by
  \<open>self.graph\<close>.
\<close>

record RDFServiceManager =
  heap :: "rdf_graph list"
  graph :: nat
  reasoning_cache :: "(string \<times> string) list"
  query_cache :: "(string \<times> string) list"
  redis_client :: "redis option"
  bnode_counter :: nat

definition new_Graph :: "RDFServiceManager \<Rightarrow> nat \<times> RDFServiceManager" where
  "new_Graph s = (length (heap s), s\<lparr>heap := heap s @ [[]]\<rparr>)"

definition graph_at :: "RDFServiceManager \<Rightarrow> nat \<Rightarrow> rdf_graph" where
  "graph_at s a = heap s ! a"

definition base_graph :: "RDFServiceManager \<Rightarrow> rdf_graph" where
  "base_graph s = graph_at s (graph s)"

definition add_at :: "nat \<Rightarrow> triple list \<Rightarrow> RDFServiceManager \<Rightarrow> RDFServiceManager" where
  \<comment> \<open>\<open>g.add(t)\<close> for each \<open>t\<close>, on the graph object at address \<open>a\<close>\<close>
  "add_at a ts s = s\<lparr>heap := (heap s)[a := add_all ts (heap s ! a)]\<rparr>"

definition ontology_triples :: "triple list" where
  "ontology_triples =
    [(OMNII ''Conversation'', RDF ''type'', OWL ''Class''),
     (OMNII ''Concept'', RDF ''type'', OWL ''Class''),
     (OMNII ''Tag'', RDF ''type'', OWL ''Class''),
     (OMNII ''User'', RDF ''type'', OWL ''Class''),
     (OMNII ''Memory'', RDF ''type'', OWL ''Class''),
     (OMNII ''BrainContext'', RDF ''type'', OWL ''Class''),
     (OMNII ''mentions'', RDF ''type'', OWL ''ObjectProperty''),
     (OMNII ''relatesToConcept'', RDF ''type'', OWL ''ObjectProperty''),
     (OMNII ''hasTag'', RDF ''type'', OWL ''ObjectProperty''),
     (OMNII ''hasConfidence'', RDF ''type'', OWL ''DatatypeProperty''),
     (OMNII ''hasTimestamp'', RDF ''type'', OWL ''DatatypeProperty''),
     (OMNII ''hasActivationStrength'', RDF ''type'', OWL ''DatatypeProperty''),
     (OMNII ''hasMemoryStrength'', RDF ''type'', OWL ''DatatypeProperty''),
     (TEMPORAL ''previousWeek'', RDF ''type'', OWL ''DatatypeProperty''),
     (TEMPORAL ''currentWeek'', RDF ''type'', OWL ''DatatypeProperty''),
     (TEMPORAL ''nextWeek'', RDF ''type'', OWL ''DatatypeProperty''),
     (TEMPORAL ''recentModification'', RDF ''type'', OWL ''DatatypeProperty'')]"

definition setup_ontology :: "RDFServiceManager \<Rightarrow> RDFServiceManager" where
  "setup_ontology s = add_at (graph s) ontology_triples s"

definition init :: "redis option \<Rightarrow> RDFServiceManager" where
  \<comment> \<open>\<open>__init__\<close>; the argument is what \<open>setup_redis\<close> leaves in \<open>redis_client\<close>\<close>
  "init r = setup_ontology
     \<lparr>heap = [[]], graph = 0, reasoning_cache = [], query_cache = [],
      redis_client = r, bnode_counter = 0\<rparr>"

section \<open>Reasoning\<close>

text \<open>
  Modelled from the spec: the deductive closure, which the service gets from
  \<open>owlrl.DeductiveClosure(owlrl.OWLRL_Semantics, ...).expand(graph)\<close>; owlrl is not part of
  the repository. The spec (4.2) has the reasoner ``iterate rule application over the
  accumulating triple set until an iteration adds zero new triples, or until an iteration
  cap (to bound pathological cases) is hit, whichever first''. The rule set and the cap
  are those of the library parameter; the derived triples are added to the graph the
  closure is given.
\<close>

fun deductive_closure :: "(rdf_graph \<Rightarrow> triple list) \<Rightarrow> nat \<Rightarrow> rdf_graph \<Rightarrow> rdf_graph" where
  "deductive_closure rs 0 g = g"
| "deductive_closure rs (Suc n) g =
     (let g' = add_all (rs g) g
      in if length g' = length g then g else deductive_closure rs n g')"

definition expand :: "'q library \<Rightarrow> rdf_graph \<Rightarrow> rdf_graph" where
  \<comment> \<open>the content, after \<open>expand(graph)\<close>, of the graph it was given\<close>
  "expand lib g = deductive_closure (rules lib) (iteration_cap lib) g"

definition apply_reasoning :: "'q library \<Rightarrow> RDFServiceManager \<Rightarrow> nat \<times> RDFServiceManager" where
  "apply_reasoning lib s =
     (case new_Graph s of (reasoning_graph, s1) \<Rightarrow>
        (let s2 = add_at reasoning_graph (base_graph s1) s1;
             s3 = s2\<lparr>heap := (heap s2)[reasoning_graph := expand lib (heap s2 ! reasoning_graph)]\<rparr>
         in (reasoning_graph, s3)))"

section \<open>Import\<close>

definition clear_query_cache :: "redis \<Rightarrow> redis" where
  \<comment> \<open>\<open>for key in scan_iter(match="rdf:query:*"): delete(key)\<close>; nothing happens when the
      commands raise\<close>
  "clear_query_cache r =
     (if responsive r
      then r\<lparr>store := filter (\<lambda>(k, e). \<not> prefix ''rdf:query:'' k) (store r)\<rparr>
      else r)"

definition import_failed :: "py_error \<Rightarrow> ImportResult" where
  "import_failed e =
     \<lparr>import_success = False, triples_imported = 0, total_triples = None,
      import_format = None, import_error = Some (str_of_error e)\<rparr>"

definition import_rdf_data ::
  "'q library \<Rightarrow> RDFImportRequest \<Rightarrow> RDFServiceManager \<Rightarrow> ImportResult \<times> RDFServiceManager" where
  "import_rdf_data lib import_data s =
     (let initial_size = len (base_graph s);
          s1 = (if clear_graph import_data
                then (case new_Graph s of (g, s') \<Rightarrow> setup_ontology (s'\<lparr>graph := g\<rparr>))
                else s)
      in case (if validation import_data
               then snd (parse lib (data import_data) (format import_data))
               else None) of
           Some e \<Rightarrow> (import_failed e, s1)
         | None \<Rightarrow>
            (case parse lib (data import_data) (format import_data) of (ts, err) \<Rightarrow>
               (let s2 = add_at (graph s1) ts s1
                in case err of
                     Some e \<Rightarrow> (import_failed e, s2)
                   | None \<Rightarrow>
                      (let s3 = s2\<lparr>reasoning_cache := [],
                                    redis_client := map_option clear_query_cache (redis_client s2)\<rparr>;
                           imported = len (base_graph s3) - initial_size
                       in (\<lparr>import_success = True, triples_imported = imported,
                            total_triples = Some (len (base_graph s3)),
                            import_format = Some (format import_data),
                            import_error = None\<rparr>, s3)))))"

section \<open>Query text\<close>

text \<open>Python's \<open>sub in s\<close> and \<open>s.replace(old, new)\<close> on strings.\<close>

fun py_in :: "string \<Rightarrow> string \<Rightarrow> bool" where
  "py_in sub [] = (sub = [])"
| "py_in sub (c # cs) = (prefix sub (c # cs) \<or> py_in sub cs)"

function py_replace :: "string \<Rightarrow> string \<Rightarrow> string \<Rightarrow> string" where
  "py_replace old new [] = (if old = [] then new else [])"
| "py_replace old new (c # cs) =
     (if old = [] then new @ c # py_replace old new cs
      else if prefix old (c # cs) then new @ py_replace old new (drop (length old) (c # cs))
      else c # py_replace old new cs)"
  by pat_completeness auto
termination
  by (relation "measure (\<lambda>(old, new, s). length s)") auto

text \<open>The two f-strings of \<open>enhance_query_with_brain_context\<close>, line feeds and indentation included.\<close>

definition user_filter :: "BrainContext \<Rightarrow> string" where
  "user_filter ctx =
     [CHR 0x0A] @ ''        FILTER EXISTS {'' @
     [CHR 0x0A] @ ''            ?concept omnii:belongsToUser '' @ [CHR 0x22] @ user_id ctx @
       [CHR 0x22] @ '' .'' @
     [CHR 0x0A] @ ''        }'' @
     [CHR 0x0A] @ ''        ''"

definition temporal_filter :: string where
  "temporal_filter =
     [CHR 0x0A] @ ''            OPTIONAL {'' @
     [CHR 0x0A] @ ''                ?concept temporal:currentWeek ?current_week_strength .'' @
     [CHR 0x0A] @ ''                ?concept temporal:previousWeek ?previous_week_strength .'' @
     [CHR 0x0A] @ ''                ?concept temporal:nextWeek ?next_week_strength .'' @
     [CHR 0x0A] @ ''            }'' @
     [CHR 0x0A] @ ''            ''"

definition enhance_query_with_brain_context :: "string \<Rightarrow> BrainContext option \<Rightarrow> string" where
  "enhance_query_with_brain_context original_query brain_ctx =
     (case brain_ctx of
        None \<Rightarrow> original_query
      | Some ctx \<Rightarrow>
          (let enhanced_query = original_query;
               user_flt = user_filter ctx
           in if temporal_reasoning ctx
              then py_replace ''WHERE {'' (''WHERE {'' @ temporal_filter) enhanced_query
              else enhanced_query))"

section \<open>The cache digest\<close>

text \<open>
  \<open>json.dumps(hash_input, sort_keys=True)\<close>: the keys in sorted order, \<open>", "\<close> and
  \<open>": "\<close> as separators, every character outside the printable ASCII range escaped
  (\<open>ensure_ascii\<close>). A Python string is taken as the list of its code points below 256.
\<close>

definition hex_digit :: "nat \<Rightarrow> char" where
  "hex_digit n = ''0123456789abcdef'' ! n"

definition hex_byte :: "nat \<Rightarrow> string" where
  "hex_byte b = [hex_digit (b div 16), hex_digit (b mod 16)]"

definition json_escape_char :: "char \<Rightarrow> string" where
  "json_escape_char c =
     (if c = CHR 0x22 then [CHR 0x5C, CHR 0x22]
      else if c = CHR 0x5C then [CHR 0x5C, CHR 0x5C]
      else if c = CHR 0x0A then [CHR 0x5C, CHR ''n'']
      else if c = CHR 0x0D then [CHR 0x5C, CHR ''r'']
      else if c = CHR 0x09 then [CHR 0x5C, CHR ''t'']
      else if c = CHR 0x08 then [CHR 0x5C, CHR ''b'']
      else if c = CHR 0x0C then [CHR 0x5C, CHR ''f'']
      else if 32 \<le> (of_char c :: nat) \<and> (of_char c :: nat) \<le> 126 then [c]
      else [CHR 0x5C, CHR ''u'', CHR ''0'', CHR ''0''] @ hex_byte (of_char c))"

definition json_string :: "string \<Rightarrow> string" where
  "json_string s = [CHR 0x22] @ concat (map json_escape_char s) @ [CHR 0x22]"

definition json_bool :: "bool \<Rightarrow> string" where
  "json_bool b = (if b then ''true'' else ''false'')"

fun digits :: "nat \<Rightarrow> string" where
  "digits n = (if n < 10 then [hex_digit n] else digits (n div 10) @ [hex_digit (n mod 10)])"

declare digits.simps [simp del]

definition str_int :: "int \<Rightarrow> string" where
  "str_int i = (if i < 0 then CHR ''-'' # digits (nat (- i)) else digits (nat i))"

definition json_key :: "string \<Rightarrow> string" where
  "json_key k = [CHR 0x22] @ k @ [CHR 0x22] @ '': ''"

definition json_context :: "BrainContext option \<Rightarrow> string" where
  "json_context c =
     (case c of
        None \<Rightarrow> ''null''
      | Some ctx \<Rightarrow>
          ''{'' @ json_key ''channel'' @ json_string (channel ctx) @
          '', '' @ json_key ''include_episodic_memory'' @ json_bool (include_episodic_memory ctx) @
          '', '' @ json_key ''include_semantic_memory'' @ json_bool (include_semantic_memory ctx) @
          '', '' @ json_key ''include_working_memory'' @ json_bool (include_working_memory ctx) @
          '', '' @ json_key ''memory_window_hours'' @ str_int (memory_window_hours ctx) @
          '', '' @ json_key ''temporal_reasoning'' @ json_bool (temporal_reasoning ctx) @
          '', '' @ json_key ''user_id'' @ json_string (user_id ctx) @ ''}'')"

definition hash_input :: "QueryRequest \<Rightarrow> string" where
  "hash_input query_data =
     ''{'' @ json_key ''brain_context'' @ json_context (brain_context query_data) @
     '', '' @ json_key ''query'' @ json_string (query query_data) @
     '', '' @ json_key ''reasoning'' @ json_bool (reasoning query_data) @ ''}''"

subsection \<open>MD5 (RFC 1321), as \<open>hashlib.md5(...).hexdigest()\<close>\<close>

type_synonym u32 = "32 word"

definition md5_K :: "u32 list" where
  "md5_K = [
    0xd76aa478, 0xe8c7b756, 0x242070db, 0xc1bdceee, 0xf57c0faf, 0x4787c62a, 0xa8304613, 0xfd469501,
    0x698098d8, 0x8b44f7af, 0xffff5bb1, 0x895cd7be, 0x6b901122, 0xfd987193, 0xa679438e, 0x49b40821,
    0xf61e2562, 0xc040b340, 0x265e5a51, 0xe9b6c7aa, 0xd62f105d, 0x02441453, 0xd8a1e681, 0xe7d3fbc8,
    0x21e1cde6, 0xc33707d6, 0xf4d50d87, 0x455a14ed, 0xa9e3e905, 0xfcefa3f8, 0x676f02d9, 0x8d2a4c8a,
    0xfffa3942, 0x8771f681, 0x6d9d6122, 0xfde5380c, 0xa4beea44, 0x4bdecfa9, 0xf6bb4b60, 0xbebfbc70,
    0x289b7ec6, 0xeaa127fa, 0xd4ef3085, 0x04881d05, 0xd9d4d039, 0xe6db99e5, 0x1fa27cf8, 0xc4ac5665,
    0xf4292244, 0x432aff97, 0xab9423a7, 0xfc93a039, 0x655b59c3, 0x8f0ccc92, 0xffeff47d, 0x85845dd1,
    0x6fa87e4f, 0xfe2ce6e0, 0xa3014314, 0x4e0811a1, 0xf7537e82, 0xbd3af235, 0x2ad7d2bb, 0xeb86d391]"

definition md5_s :: "nat list" where
  "md5_s = [7, 12, 17, 22, 7, 12, 17, 22, 7, 12, 17, 22, 7, 12, 17, 22,
            5, 9, 14, 20, 5, 9, 14, 20, 5, 9, 14, 20, 5, 9, 14, 20,
            4, 11, 16, 23, 4, 11, 16, 23, 4, 11, 16, 23, 4, 11, 16, 23,
            6, 10, 15, 21, 6, 10, 15, 21, 6, 10, 15, 21, 6, 10, 15, 21]"

definition le_bytes :: "nat \<Rightarrow> nat \<Rightarrow> nat list" where
  \<comment> \<open>the \<open>k\<close> low bytes of a number, least significant first\<close>
  "le_bytes k n = map (\<lambda>j. n div 256 ^ j mod 256) [0..<k]"

definition md5_pad :: "nat list \<Rightarrow> nat list" where
  "md5_pad m = (let n = length m in
     m @ [128] @ replicate ((119 - n mod 64) mod 64) 0 @ le_bytes 8 (8 * n))"

fun blocks64 :: "nat list \<Rightarrow> nat list list" where
  "blocks64 bs = (if bs = [] then [] else take 64 bs # blocks64 (drop 64 bs))"

declare blocks64.simps [simp del]

fun le_words :: "nat list \<Rightarrow> u32 list" where
  "le_words (b0 # b1 # b2 # b3 # bs) =
     of_nat (b0 + 256 * b1 + 65536 * b2 + 16777216 * b3) # le_words bs"
| "le_words bs = []"

type_synonym md5_state = "u32 \<times> u32 \<times> u32 \<times> u32"

definition md5_step :: "u32 list \<Rightarrow> md5_state \<Rightarrow> nat \<Rightarrow> md5_state" where
  "md5_step M st i =
     (case st of (a, b, c, d) \<Rightarrow>
       (let f = (if i < 16 then (b AND c) OR (NOT b AND d)
                 else if i < 32 then (d AND b) OR (NOT d AND c)
                 else if i < 48 then b XOR c XOR d
                 else c XOR (b OR NOT d));
            g = (if i < 16 then i
                 else if i < 32 then (5 * i + 1) mod 16
                 else if i < 48 then (3 * i + 5) mod 16
                 else (7 * i) mod 16);
            f' = f + a + md5_K ! i + M ! g
        in (d, b + word_rotl (md5_s ! i) f', b, c)))"

definition md5_block :: "md5_state \<Rightarrow> nat list \<Rightarrow> md5_state" where
  "md5_block st blk =
     (case st of (a0, b0, c0, d0) \<Rightarrow>
       (case foldl (md5_step (le_words blk)) st [0..<64] of
          (a, b, c, d) \<Rightarrow> (a0 + a, b0 + b, c0 + c, d0 + d)))"

definition md5_hexdigest :: "string \<Rightarrow> string" where
  "md5_hexdigest s =
     (case foldl md5_block (0x67452301, 0xefcdab89, 0x98badcfe, 0x10325476)
             (blocks64 (md5_pad (map of_char s))) of
        (a, b, c, d) \<Rightarrow>
          concat (map hex_byte (concat (map (\<lambda>w. le_bytes 4 (unat w)) [a, b, c, d]))))"

definition generate_query_hash :: "QueryRequest \<Rightarrow> string" where
  "generate_query_hash query_data = md5_hexdigest (hash_input query_data)"

section \<open>Query execution\<close>

definition cache_key :: "string \<Rightarrow> string" where
  "cache_key h = ''rdf:query:'' @ h"

definition request_hash :: "QueryRequest \<Rightarrow> string" where
  \<comment> \<open>\<open>query_data.query_hash or self.generate_query_hash(query_data)\<close>: \<open>None\<close> and the
      empty string are both false\<close>
  "request_hash query_data =
     (case query_hash query_data of
        None \<Rightarrow> generate_query_hash query_data
      | Some h \<Rightarrow> if h \<noteq> [] then h else generate_query_hash query_data)"

definition cache_lookup :: "redis option \<Rightarrow> string \<Rightarrow> QueryResponse option" where
  \<comment> \<open>the cached response returned at once, if any; a command that raises is logged\<close>
  "cache_lookup client k =
     (case client of
        None \<Rightarrow> None
      | Some r \<Rightarrow> if responsive r then map_option payload (map_of (store r) k) else None)"

definition setex :: "string \<Rightarrow> nat \<Rightarrow> QueryResponse \<Rightarrow> redis \<Rightarrow> redis" where
  "setex k t v r =
     (if responsive r
      then r\<lparr>store := (k, \<lparr>ttl = t, payload = v\<rparr>) # filter (\<lambda>(k', e). k' \<noteq> k) (store r)\<rparr>
      else r)"

definition nonempty :: "string option \<Rightarrow> string option" where
  \<comment> \<open>\<open>x if x else None\<close>\<close>
  "nonempty x = (case x of None \<Rightarrow> None | Some v \<Rightarrow> if v = [] then None else Some v)"

fun shape_value :: "rdf_term \<Rightarrow> binding_value" where
  "shape_value (URIRef u) = UriValue u"
| "shape_value (Literal v d l) = LiteralValue v (nonempty d) (nonempty l)"
| "shape_value (BNode b) = BlankValue b"

fun binding_text :: "binding_value \<Rightarrow> string" where
  "binding_text (UriValue u) = u"
| "binding_text (LiteralValue v d l) = v"
| "binding_text (BlankValue b) = b"

definition shape_row :: "'q library \<Rightarrow> string list \<Rightarrow> (string \<times> rdf_term) list \<Rightarrow> result_row" where
  "shape_row lib vars row =
     concat (map (\<lambda>var. case map_of row var of
                          None \<Rightarrow> []
                        | Some v \<Rightarrow> if term_bool lib v then [(var, shape_value v)] else []) vars)"

definition after_last_hash :: "string \<Rightarrow> string" where
  \<comment> \<open>\<open>s.split('#')[-1]\<close>, which is \<open>s\<close> itself when it has no \<open>#\<close>\<close>
  "after_last_hash s = rev (takeWhile (\<lambda>c. c \<noteq> CHR ''#'') (rev s))"

definition generate_brain_insights :: "result_row \<Rightarrow> BrainContext \<Rightarrow> insight list" where
  "generate_brain_insights row ctx =
     (case map_of row ''concept'' of
        None \<Rightarrow> []
      | Some v \<Rightarrow>
          [\<lparr>insight_concept_id = after_last_hash (binding_text v),
            insight_type = ''semantic_connection'',
            confidence = 3 / 4,
            description = ''Concept identified in '' @ channel ctx @
              '' context with temporal reasoning''\<rparr>])"

definition py_slice_to :: "'a list \<Rightarrow> int \<Rightarrow> 'a list" where
  \<comment> \<open>\<open>xs[:n]\<close>: a negative \<open>n\<close> counts from the end\<close>
  "py_slice_to xs n = (if 0 \<le> n then take (nat n) xs else take (nat (int (length xs) + n)) xs)"

definition apply_limit :: "'a list \<Rightarrow> int \<Rightarrow> 'a list" where
  "apply_limit rs l = (if int (length rs) > l then py_slice_to rs l else rs)"

definition failure_response :: "string \<Rightarrow> py_error \<Rightarrow> QueryResponse" where
  "failure_response h e =
     \<lparr>success = False, results = [], reasoning_applied = False, response_hash = h,
      total_results = 0, error = Some (str_of_error e), integration = None,
      concept_insights = None\<rparr>"

definition build_response ::
  "'q library \<Rightarrow> QueryRequest \<Rightarrow> string \<Rightarrow> 'q \<Rightarrow> (string \<times> rdf_term) list list \<Rightarrow> QueryResponse" where
  \<comment> \<open>from the solution rows to the response: the rows are shaped, the insights collected
      from every row, and only then the limit applied\<close>
  "build_response lib query_data h prepared_query rows =
     (let all_results = map (shape_row lib (PV lib prepared_query)) rows;
          brain_insights = (case brain_context query_data of
                              None \<Rightarrow> []
                            | Some ctx \<Rightarrow> concat (map (\<lambda>r. generate_brain_insights r ctx) all_results));
          limited = apply_limit all_results (limit query_data)
      in \<lparr>success = True, results = limited, reasoning_applied = reasoning query_data,
          response_hash = h, total_results = int (length limited), error = None,
          integration = Some
            \<lparr>concepts_analyzed = int (length brain_insights),
             memory_contexts_used = (if brain_context query_data = None then 0 else 1),
             temporal_reasoning_applied =
               (case brain_context query_data of None \<Rightarrow> False | Some ctx \<Rightarrow> temporal_reasoning ctx),
             concept_evolutions_triggered = 0, neo4j_updates_queued = 0\<rparr>,
          concept_insights = Some brain_insights\<rparr>)"

definition evaluate ::
  "'q library \<Rightarrow> QueryRequest \<Rightarrow> string \<Rightarrow> RDFServiceManager
     \<Rightarrow> (py_error + QueryResponse) \<times> RDFServiceManager" where
  \<comment> \<open>the body of the second \<open>try\<close> of \<open>execute_sparql_query\<close>, up to the response\<close>
  "evaluate lib query_data h s =
     (case (if reasoning query_data then apply_reasoning lib s else (graph s, s)) of
        (working_graph, s1) \<Rightarrow>
          (case prepareQuery lib
                  (enhance_query_with_brain_context (query query_data) (brain_context query_data)) of
             Inl e \<Rightarrow> (Inl e, s1)
           | Inr prepared_query \<Rightarrow>
               (case (if query_type query_data = ''SELECT''
                      then graph_query lib (graph_at s1 working_graph) prepared_query
                      else Inr []) of
                  Inl e \<Rightarrow> (Inl e, s1)
                | Inr rows \<Rightarrow> (Inr (build_response lib query_data h prepared_query rows), s1))))"

definition execute_sparql_query ::
  "'q library \<Rightarrow> QueryRequest \<Rightarrow> RDFServiceManager \<Rightarrow> QueryResponse \<times> RDFServiceManager" where
  "execute_sparql_query lib query_data s =
     (let h = request_hash query_data in
      case cache_lookup (redis_client s) (cache_key h) of
        Some cached \<Rightarrow> (cached, s)
      | None \<Rightarrow>
          (case evaluate lib query_data h s of
             (Inl e, s1) \<Rightarrow> (failure_response h e, s1)
           | (Inr response, s1) \<Rightarrow>
               (response,
                s1\<lparr>redis_client :=
                     map_option (setex (cache_key h) (if reasoning query_data then 900 else 1800) response)
                       (redis_client s1)\<rparr>)))"

section \<open>Concept evolution\<close>

fun term_str :: "rdf_term \<Rightarrow> string" where
  "term_str (URIRef u) = u"
| "term_str (Literal v d l) = v"
| "term_str (BNode b) = b"

definition fresh_BNode :: "RDFServiceManager \<Rightarrow> rdf_term \<times> RDFServiceManager" where
  \<comment> \<open>\<open>BNode()\<close>: an identifier not given out before\<close>
  "fresh_BNode s =
     (BNode (''N'' @ digits (bnode_counter s)), s\<lparr>bnode_counter := Suc (bnode_counter s)\<rparr>)"

definition item :: "(string \<times> py_value) list \<Rightarrow> string \<Rightarrow> py_error + py_value" where
  \<comment> \<open>\<open>d[k]\<close>\<close>
  "item d k = (case map_of d k of None \<Rightarrow> Inl (PyException (''KeyError: '' @ k)) | Some v \<Rightarrow> Inr v)"

definition info_subject :: "rdf_term \<Rightarrow> (string \<times> py_value) list \<Rightarrow> py_error + rdf_term" where
  "info_subject concept_uri info =
     (case item info ''subject'' of
        Inl e \<Rightarrow> Inl e
      | Inr (PyStr x) \<Rightarrow> Inr (if prefix ''http'' x then URIRef x else concept_uri)
      | Inr other \<Rightarrow> Inl (PyException ''AttributeError: no attribute startswith''))"

definition info_predicate :: "'q library \<Rightarrow> (string \<times> py_value) list \<Rightarrow> py_error + rdf_term" where
  "info_predicate lib info =
     (case item info ''predicate'' of
        Inl e \<Rightarrow> Inl e
      | Inr (PyStr x) \<Rightarrow> Inr (URIRef x)
      | Inr other \<Rightarrow> to_uriref lib other)"

definition info_object :: "'q library \<Rightarrow> (string \<times> py_value) list \<Rightarrow> py_error + rdf_term" where
  "info_object lib info =
     (case item info ''object'' of
        Inl e \<Rightarrow> Inl e
      | Inr (PyStr x) \<Rightarrow> Inr (Literal x None None)
      | Inr other \<Rightarrow> Inr (URIRef (py_str lib other)))"

definition add_confidence ::
  "'q library \<Rightarrow> rdf_term \<Rightarrow> (string \<times> py_value) list \<Rightarrow> RDFServiceManager \<Rightarrow> RDFServiceManager" where
  "add_confidence lib subject info s =
     (case map_of info ''confidence'' of
        None \<Rightarrow> s
      | Some c \<Rightarrow>
          (case fresh_BNode s of (confidence_triple, s1) \<Rightarrow>
             add_at (graph s1)
               [(confidence_triple, OMNII ''hasConfidence'',
                   (case c of PyStr x \<Rightarrow> Literal x None None | other \<Rightarrow> to_literal lib other)),
                (subject, OMNII ''hasEvidence'', confidence_triple)] s1))"

definition add_info ::
  "'q library \<Rightarrow> rdf_term \<Rightarrow> (string \<times> py_value) list \<Rightarrow> RDFServiceManager
     \<Rightarrow> py_error + (string \<times> RDFServiceManager)" where
  \<comment> \<open>one turn of the loop over \<open>new_information\<close>: the line for the reasoning chain and
      the state, or the exception raised before anything was added\<close>
  "add_info lib concept_uri info s =
     (case info_subject concept_uri info of
        Inl e \<Rightarrow> Inl e
      | Inr subject \<Rightarrow>
          (case info_predicate lib info of
             Inl e \<Rightarrow> Inl e
           | Inr predicate \<Rightarrow>
               (case info_object lib info of
                  Inl e \<Rightarrow> Inl e
                | Inr obj \<Rightarrow>
                    Inr (''Added triple: '' @ term_str subject @ '' '' @ term_str predicate @
                           '' '' @ term_str obj,
                         add_confidence lib subject info
                           (add_at (graph s) [(subject, predicate, obj)] s)))))"

fun add_information ::
  "'q library \<Rightarrow> rdf_term \<Rightarrow> (string \<times> py_value) list list \<Rightarrow> RDFServiceManager \<Rightarrow> string list
     \<Rightarrow> py_error option \<times> RDFServiceManager \<times> string list" where
  "add_information lib concept_uri [] s chain = (None, s, chain)"
| "add_information lib concept_uri (info # rest) s chain =
     (case add_info lib concept_uri info s of
        Inl e \<Rightarrow> (Some e, s, chain)
      | Inr (line, s1) \<Rightarrow> add_information lib concept_uri rest s1 (chain @ [line]))"

definition below_threshold :: "py_value \<Rightarrow> py_error + bool" where
  \<comment> \<open>\<open>v < 0.8\<close>; the float \<open>0.8\<close> is \<open>3602879701896397 / 2 ^ 52\<close>\<close>
  "below_threshold v =
     (case v of
        PyInt i \<Rightarrow> Inr (i \<le> 0)
      | PyBool b \<Rightarrow> Inr (\<not> b)
      | PyFloat x \<Rightarrow> Inr (x < 3602879701896397 / 4503599627370496)
      | other \<Rightarrow> Inl (PyException ''TypeError: < not supported''))"

definition evolution_failed :: "ConceptEvolutionRequest \<Rightarrow> py_error \<Rightarrow> EvolutionResult" where
  "evolution_failed evolution_data e =
     \<lparr>evolution_success = False, result_concept_id = concept_id evolution_data,
      evolution_applied = False, confidence_score = 0, changes_detected = [],
      reasoning_chain = [], memory_consolidation_triggered = None,
      evolution_error = Some (str_of_error e)\<rparr>"

definition evolve_concept ::
  "'q library \<Rightarrow> ConceptEvolutionRequest \<Rightarrow> RDFServiceManager \<Rightarrow> EvolutionResult \<times> RDFServiceManager" where
  "evolve_concept lib evolution_data s =
     (let concept_uri = CONCEPT (concept_id evolution_data);
          s1 = add_at (graph s)
                 [(concept_uri, RDF ''type'', OMNII ''Concept''),
                  (concept_uri, RDFS ''label'', Literal (concept_name evolution_data) None None)] s
      in case add_information lib concept_uri (new_information evolution_data) s1 [] of
           (Some e, s2, chain) \<Rightarrow> (evolution_failed evolution_data e, s2)
         | (None, s2, chain) \<Rightarrow>
             (let strength = (case map_of (current_properties evolution_data) ''activation_strength'' of
                                None \<Rightarrow> PyInt 0 | Some v \<Rightarrow> v)
              in case below_threshold strength of
                   Inl e \<Rightarrow> (evolution_failed evolution_data e, s2)
                 | Inr below \<Rightarrow>
                     (let changes = (if below
                            then [\<lparr>changed_property = ''activation_strength'',
                                   old_value = py_str lib strength, new_value = ''0.8'',
                                   evidence_strength = 9 / 10,
                                   temporal_context = ''current_week''\<rparr>]
                            else [])
                      in (\<lparr>evolution_success = True,
                           result_concept_id = concept_id evolution_data,
                           evolution_applied = (length changes > 0),
                           confidence_score = 17 / 20,
                           changes_detected = changes,
                           reasoning_chain = chain @
                             (if below
                              then [''Increased activation strength based on brain memory evidence'']
                              else []),
                           memory_consolidation_triggered = Some (length changes > 2),
                           evolution_error = None\<rparr>, s2))))"

section \<open>A test double of the libraries\<close>

text \<open>
  A small instance of the library parameter, used to run the operations on concrete
  inputs: a parser that rejects the text of the repository's malformed-import test and
  reads every other text as one triple, an engine that answers every query with the
  graph's triples, and a rule set that derives one axiomatic triple.
\<close>

definition demo_library :: "string library" where
  "demo_library =
     \<lparr>parse = (\<lambda>d f.
        if d = ''INVALID RDF DATA'' then ([], Some (PyException ''Bad syntax''))
        else ([(URIRef ''http://example.org/c1'', RDF ''type'', OMNII ''Concept'')], None)),
      prepareQuery = (\<lambda>q.
        if q = ''INVALID SPARQL SYNTAX'' then Inl (PyException ''Expected SelectQuery'')
        else Inr q),
      PV = (\<lambda>q. [''s'', ''p'', ''o'']),
      graph_query = (\<lambda>g q. Inr (map (\<lambda>(s, p, ob). [(''s'', s), (''p'', p), (''o'', ob)]) g)),
      term_bool = (\<lambda>t. (case t of URIRef u \<Rightarrow> u \<noteq> [] | Literal v d l \<Rightarrow> v \<noteq> []
          | BNode b \<Rightarrow> b \<noteq> [])),
      rules = (\<lambda>g. [(RDF ''type'', RDF ''type'', RDF ''Property'')]),
      iteration_cap = 8,
      to_uriref = (\<lambda>v. Inl (PyException ''argument is not iterable'')),
      to_literal = (\<lambda>v. (case v of PyInt i \<Rightarrow> Literal (str_int i) (Some ''http://www.w3.org/2001/XMLSchema#integer'') None
          | other \<Rightarrow> Literal ''?'' None None)),
      py_str = (\<lambda>v. (case v of PyStr x \<Rightarrow> x | PyInt i \<Rightarrow> str_int i | PyNone \<Rightarrow> ''None''
          | PyBool b \<Rightarrow> (if b then ''True'' else ''False'') | other \<Rightarrow> ''?''))\<rparr>"

definition demo_context :: BrainContext where
  "demo_context =
     \<lparr>user_id = ''123e4567-e89b-12d3-a456-426614174000'', channel = ''sms'',
      memory_window_hours = 168, include_working_memory = True,
      include_episodic_memory = True, include_semantic_memory = True,
      temporal_reasoning = True\<rparr>"

definition cached_response :: QueryResponse where
  "cached_response =
     \<lparr>success = True, results = [], reasoning_applied = False, response_hash = ''abc'',
      total_results = 0, error = None, integration = None, concept_insights = None\<rparr>"

definition cached_state :: "bool \<Rightarrow> RDFServiceManager" where
  \<comment> \<open>the service after start-up with one cached query response in Redis\<close>
  "cached_state up = init (Some
     \<lparr>store = [(''rdf:query:abc'', \<lparr>ttl = 1800, payload = cached_response\<rparr>)],
      responsive = up\<rparr>)"

definition valid_import :: RDFImportRequest where
  "valid_import =
     \<lparr>data = ''<http://example.org/c1> a <https://omnii.ai/ontology#Concept> .'',
      format = ''turtle'', validation = True, clear_graph = False, named_graph = None\<rparr>"

definition demo_evolution :: ConceptEvolutionRequest where
  "demo_evolution =
     \<lparr>concept_id = ''123e4567-e89b-12d3-a456-426614174000'', concept_name = ''test_concept'',
      current_properties = [(''activation_strength'', PyFloat (3 / 5)), (''mention_count'', PyInt 3)],
      new_information = [[(''subject'', PyStr ''http://example.org/c1''),
                          (''predicate'', PyStr ''http://example.org/p''),
                          (''object'', PyStr ''v''), (''confidence'', PyInt 1)]],
      evidence_sources = [], brain_memory_context = [],
      reasoning_depth = ''intermediate'', validation_required = True,
      full_brain_context = None\<rparr>"

definition select_all :: "int \<Rightarrow> QueryRequest" where
  \<comment> \<open>the query of the end-to-end scenario, with a given limit\<close>
  "select_all l =
     \<lparr>query = ''SELECT ?s ?p ?o WHERE { ?s ?p ?o }'', query_type = ''SELECT'',
      reasoning = False, timeout = 10, limit = l, namespaces = None,
      brain_context = None, query_hash = None\<rparr>"

definition empty_redis :: redis where
  "empty_redis = \<lparr>store = [], responsive = True\<rparr>"

definition hashed_select :: "string \<Rightarrow> string \<Rightarrow> QueryRequest" where
  \<comment> \<open>a SELECT request with the given text that carries a \<open>query_hash\<close>\<close>
  "hashed_select h q =
     \<lparr>query = q, query_type = ''SELECT'', reasoning = False, timeout = 10, limit = 100,
      namespaces = None, brain_context = None, query_hash = Some h\<rparr>"

definition wf :: "RDFServiceManager \<Rightarrow> bool" where
  \<comment> \<open>\<open>self.graph\<close> is the address of a graph object\<close>
  "wf s = (graph s < length (heap s))"

section \<open>Properties\<close>

lemma set_add_all: "set (add_all ts g) = set g \<union> set ts"
  unfolding add_all_def
  by (induction ts arbitrary: g) (auto simp: graph_add_def)

lemma ontology_distinct: "distinct ontology_triples"
  by (simp add: ontology_triples_def OMNII_def TEMPORAL_def RDF_def OWL_def)

lemma add_all_distinct_Nil: "distinct ts \<Longrightarrow> add_all ts [] = ts"
proof -
  have "distinct (g @ ts) \<Longrightarrow> add_all ts g = g @ ts" for g
    unfolding add_all_def
    by (induction ts arbitrary: g) (auto simp: graph_add_def)
  from this [of "[]"] show "distinct ts \<Longrightarrow> add_all ts [] = ts" by simp
qed

lemma add_all_ontology: "add_all ontology_triples [] = ontology_triples"
  by (rule add_all_distinct_Nil [OF ontology_distinct])

lemma base_graph_init: "base_graph (init r) = ontology_triples"
  by (simp add: init_def setup_ontology_def add_at_def base_graph_def graph_at_def
      add_all_ontology)

lemma wf_init: "wf (init r)"
  by (simp add: wf_def init_def setup_ontology_def add_at_def)

lemma length_ontology: "length ontology_triples = 17"
  by (simp add: ontology_triples_def)

lemma len_ontology: "len ontology_triples = 17"
  by (simp add: len_def length_ontology)

subsection \<open>Reasoning\<close>

lemma apply_reasoning_unfold:
  assumes "wf s"
  shows "apply_reasoning lib s =
    (length (heap s),
     s\<lparr>heap := heap s @ [expand lib (add_all (base_graph s) [])]\<rparr>)"
  using assms
  by (simp add: apply_reasoning_def new_Graph_def add_at_def base_graph_def graph_at_def
      wf_def nth_append list_update_append)

lemma deductive_closure_superset: "set g \<subseteq> set (deductive_closure rs n g)"
proof (induction n arbitrary: g)
  case 0
  show ?case by simp
next
  case (Suc n)
  have "set g \<subseteq> set (add_all (rs g) g)"
    by (simp add: set_add_all)
  with Suc [of "add_all (rs g) g"] show ?case
    by (auto simp: Let_def)
qed

lemma expand_demo:
  "expand demo_library g = graph_add (RDF ''type'', RDF ''type'', RDF ''Property'') g"
proof -
  let ?t = "(RDF ''type'', RDF ''type'', RDF ''Property'')"
  have a: "add_all [?t] h = graph_add ?t h" for h
    by (simp add: add_all_def)
  have "deductive_closure (\<lambda>g. [?t]) (Suc (Suc n)) g = graph_add ?t g" for n
    by (simp add: a Let_def graph_add_def)
  from this [of 6] show ?thesis
    by (simp add: expand_def demo_library_def eval_nat_numeral)
qed

text \<open>
  C6. The graph \<open>apply_reasoning\<close> returns holds every triple of the base graph: the
  reasoning graph is filled with the base graph's triples, and the closure, whatever the
  rule set and the bound on its rounds, only adds to the graph it is given.
\<close>

theorem apply_reasoning_superset:
  assumes "wf s"
    and "apply_reasoning lib s = (r, s')"
  shows "set (base_graph s) \<subseteq> set (graph_at s' r)"
proof -
  from assms have r: "r = length (heap s)"
    and s': "s' = s\<lparr>heap := heap s @ [expand lib (add_all (base_graph s) [])]\<rparr>"
    by (simp_all add: apply_reasoning_unfold)
  have "graph_at s' r = expand lib (add_all (base_graph s) [])"
    by (simp add: r s' graph_at_def)
  moreover have "set (base_graph s) \<subseteq> set (add_all (base_graph s) [])"
    by (simp add: set_add_all)
  ultimately show ?thesis
    using deductive_closure_superset [of "add_all (base_graph s) []" "rules lib" "iteration_cap lib"]
    by (auto simp: expand_def)
qed

theorem apply_reasoning_superset_witness:
  "wf (init None) \<and>
   set (base_graph (init None)) \<subseteq>
     set (graph_at (snd (apply_reasoning demo_library (init None)))
            (fst (apply_reasoning demo_library (init None)))) \<and>
   (RDF ''type'', RDF ''type'', RDF ''Property'')
     \<in> set (graph_at (snd (apply_reasoning demo_library (init None)))
            (fst (apply_reasoning demo_library (init None)))) \<and>
   (RDF ''type'', RDF ''type'', RDF ''Property'') \<notin> set (base_graph (init None))"
proof -
  have n: "(RDF ''type'', RDF ''type'', RDF ''Property'') \<notin> set (base_graph (init None))"
    by (simp add: base_graph_init ontology_triples_def OMNII_def TEMPORAL_def RDF_def OWL_def)
  have g: "graph_at (snd (apply_reasoning demo_library (init None)))
            (fst (apply_reasoning demo_library (init None)))
      = graph_add (RDF ''type'', RDF ''type'', RDF ''Property'') (add_all (base_graph (init None)) [])"
    by (simp add: apply_reasoning_unfold [OF wf_init] graph_at_def expand_demo)
  show ?thesis
    using apply_reasoning_superset [OF wf_init [of None], of demo_library
        "fst (apply_reasoning demo_library (init None))"
        "snd (apply_reasoning demo_library (init None))"]
    by (simp add: wf_init n g graph_add_def)
qed

text \<open>
  C7. \<open>apply_reasoning\<close> leaves the base graph as it was: the reasoning graph is a new
  graph object, at an address other than \<open>self.graph\<close>, \<open>self.graph\<close> still names the
  same object, and every graph object that existed before the call has its content
  unchanged.
\<close>

theorem apply_reasoning_frame:
  assumes "wf s"
    and "apply_reasoning lib s = (r, s')"
  shows "base_graph s' = base_graph s \<and> graph s' = graph s \<and> r \<noteq> graph s \<and>
         take (length (heap s)) (heap s') = heap s"
  using assms
  by (auto simp: apply_reasoning_unfold base_graph_def graph_at_def wf_def nth_append)

theorem apply_reasoning_frame_witness:
  "wf (init None) \<and>
   base_graph (snd (apply_reasoning demo_library (init None))) = base_graph (init None) \<and>
   graph (snd (apply_reasoning demo_library (init None))) = graph (init None) \<and>
   fst (apply_reasoning demo_library (init None)) \<noteq> graph (init None) \<and>
   take (length (heap (init None))) (heap (snd (apply_reasoning demo_library (init None))))
     = heap (init None)"
  using apply_reasoning_frame [OF wf_init [of None], of demo_library
      "fst (apply_reasoning demo_library (init None))"
      "snd (apply_reasoning demo_library (init None))"]
  by (simp add: wf_init)

subsection \<open>Import\<close>

lemma clear_state:
  "(case new_Graph s of (g, s') \<Rightarrow> setup_ontology (s'\<lparr>graph := g\<rparr>)) =
     s\<lparr>heap := heap s @ [ontology_triples], graph := length (heap s)\<rparr>"
  by (simp add: new_Graph_def setup_ontology_def add_at_def add_all_ontology)

lemma import_invalid_no_clear:
  assumes "validation req" and "\<not> clear_graph req"
    and "snd (parse lib (data req) (format req)) = Some e"
  shows "import_rdf_data lib req s = (import_failed e, s)"
  using assms by (simp add: import_rdf_data_def)

lemma import_invalid_clear:
  assumes "validation req" and "clear_graph req"
    and "snd (parse lib (data req) (format req)) = Some e"
  shows "import_rdf_data lib req s =
    (import_failed e, s\<lparr>heap := heap s @ [ontology_triples], graph := length (heap s)\<rparr>)"
  using assms by (simp add: import_rdf_data_def clear_state)

definition evolved_state :: RDFServiceManager where
  \<comment> \<open>the service after start-up, with two more triples in the base graph\<close>
  "evolved_state = add_at 0
     [(CONCEPT ''c1'', RDF ''type'', OMNII ''Concept''),
      (CONCEPT ''c1'', RDFS ''label'', Literal ''first'' None None)] (init None)"

definition malformed_import :: RDFImportRequest where
  "malformed_import =
     \<lparr>data = ''INVALID RDF DATA'', format = ''turtle'', validation = True,
      clear_graph = True, named_graph = None\<rparr>"

lemma heap_init: "heap (init r) = [ontology_triples]" and graph_init: "graph (init r) = 0"
  by (simp_all add: init_def setup_ontology_def add_at_def add_all_ontology)

lemma base_graph_evolved:
  "base_graph evolved_state =
     ontology_triples @
     [(CONCEPT ''c1'', RDF ''type'', OMNII ''Concept''),
      (CONCEPT ''c1'', RDFS ''label'', Literal ''first'' None None)]"
  by (simp add: evolved_state_def add_at_def base_graph_def graph_at_def heap_init graph_init
      add_all_def graph_add_def ontology_triples_def OMNII_def TEMPORAL_def RDF_def OWL_def
      CONCEPT_def RDFS_def)

text \<open>
  C1. A malformed import with validation and \<open>clear_graph\<close>: the base graph is replaced
  by a new graph with the ontology's triples before the data is validated, so the failed
  call reports \<open>success: False\<close> and leaves the base graph without the two triples it
  held before.
\<close>

theorem import_clear_precedes_validation:
  "\<not> import_success (fst (import_rdf_data demo_library malformed_import evolved_state)) \<and>
   base_graph (snd (import_rdf_data demo_library malformed_import evolved_state))
     = ontology_triples \<and>
   base_graph evolved_state \<noteq>
     base_graph (snd (import_rdf_data demo_library malformed_import evolved_state)) \<and>
   len (base_graph evolved_state) = 19 \<and>
   len (base_graph (snd (import_rdf_data demo_library malformed_import evolved_state))) = 17"
proof -
  have p: "snd (parse demo_library (data malformed_import) (format malformed_import))
      = Some (PyException ''Bad syntax'')"
    by (simp add: demo_library_def malformed_import_def)
  have v: "validation malformed_import" and c: "clear_graph malformed_import"
    by (simp_all add: malformed_import_def)
  have r: "import_rdf_data demo_library malformed_import evolved_state =
      (import_failed (PyException ''Bad syntax''),
       evolved_state\<lparr>heap := heap evolved_state @ [ontology_triples],
                      graph := length (heap evolved_state)\<rparr>)"
    by (rule import_invalid_clear [OF v c p])
  have b: "base_graph (snd (import_rdf_data demo_library malformed_import evolved_state))
      = ontology_triples"
    by (simp add: r base_graph_def graph_at_def)
  show ?thesis
    by (simp add: b base_graph_evolved len_ontology)
      (simp add: r import_failed_def len_def length_ontology)
qed

text \<open>
  C10. A successful import with \<open>clear_graph\<close> reports as \<open>triples_imported\<close> the size of
  the graph after the import minus the size of the graph before it was cleared; the graph
  after the import is the ontology with the parsed triples added; so the count is negative
  when the graph held more triples before the call than after it.
\<close>

theorem import_clear_count:
  assumes "import_rdf_data lib req s = (res, s')"
    and "import_success res"
    and "clear_graph req"
  shows "triples_imported res = len (base_graph s') - len (base_graph s) \<and>
         base_graph s' = add_all (fst (parse lib (data req) (format req))) ontology_triples \<and>
         total_triples res = Some (len (base_graph s')) \<and>
         (len (base_graph s') < len (base_graph s) \<longrightarrow> triples_imported res < 0)"
proof -
  obtain ts err where p: "parse lib (data req) (format req) = (ts, err)"
    by (cases "parse lib (data req) (format req)")
  from assms have e: "err = None"
    by (auto simp: import_rdf_data_def p import_failed_def Let_def
        split: if_splits option.splits)
  from assms show ?thesis
    by (auto simp: import_rdf_data_def p e clear_state Let_def add_at_def base_graph_def
        graph_at_def split: if_splits option.splits)
qed

definition clearing_import :: RDFImportRequest where
  "clearing_import =
     \<lparr>data = ''<http://example.org/c1> a <https://omnii.ai/ontology#Concept> .'',
      format = ''turtle'', validation = True, clear_graph = True, named_graph = None\<rparr>"

theorem import_clear_count_witness:
  "import_success (fst (import_rdf_data demo_library clearing_import evolved_state)) \<and>
   clear_graph clearing_import \<and>
   triples_imported (fst (import_rdf_data demo_library clearing_import evolved_state)) = - 1 \<and>
   len (base_graph (snd (import_rdf_data demo_library clearing_import evolved_state))) = 18 \<and>
   len (base_graph evolved_state) = 19"
proof -
  obtain res s' where r: "import_rdf_data demo_library clearing_import evolved_state = (res, s')"
    by (cases "import_rdf_data demo_library clearing_import evolved_state")
  have p: "parse demo_library (data clearing_import) (format clearing_import) =
      ([(URIRef ''http://example.org/c1'', RDF ''type'', OMNII ''Concept'')], None)"
    by (simp add: demo_library_def clearing_import_def)
  have c: "clear_graph clearing_import" and v: "validation clearing_import"
    by (simp_all add: clearing_import_def)
  have ok: "import_success res"
    using r by (auto simp: import_rdf_data_def p v Let_def)
  have a: "add_all [(URIRef ''http://example.org/c1'', RDF ''type'', OMNII ''Concept'')]
      ontology_triples =
      ontology_triples @ [(URIRef ''http://example.org/c1'', RDF ''type'', OMNII ''Concept'')]"
    by (simp add: add_all_def graph_add_def ontology_triples_def OMNII_def TEMPORAL_def
        RDF_def OWL_def)
  from import_clear_count [OF r ok c]
  have t: "triples_imported res = len (base_graph s') - len (base_graph evolved_state)"
    and b: "base_graph s' =
      ontology_triples @ [(URIRef ''http://example.org/c1'', RDF ''type'', OMNII ''Concept'')]"
    by (simp_all add: p a)
  have l: "len (base_graph s') = 18"
    by (simp add: b len_def length_ontology)
  have l0: "len (base_graph evolved_state) = 19"
    by (simp add: base_graph_evolved len_def length_ontology)
  show ?thesis
    by (simp add: r ok c t l l0)
qed

subsection \<open>Query text\<close>

lemma py_replace_absent:
  "old \<noteq> [] \<Longrightarrow> \<not> py_in old s \<Longrightarrow> py_replace old new s = s"
  by (induction s) auto

lemma no_straddle:
  assumes "old \<noteq> []" and "hd old \<notin> set (tl old)" and "\<not> prefix old (c # a)"
  shows "\<not> prefix old ((c # a) @ old @ b)"
proof
  assume "prefix old ((c # a) @ old @ b)"
  with prefix_append [of old "c # a" "old @ b"] assms(3)
  obtain us where us: "old = (c # a) @ us" and p: "prefix us (old @ b)"
    by blast
  show False
  proof (cases us)
    case Nil
    with us assms(3) show False by simp
  next
    case (Cons u us')
    with p assms(1) have "u = hd old"
      by (cases old) auto
    moreover from us Cons have "u \<in> set (tl old)" by simp
    ultimately show False using assms(2) by simp
  qed
qed

lemma py_replace_first:
  assumes "old \<noteq> []" and "hd old \<notin> set (tl old)" and "\<not> py_in old a"
  shows "py_replace old new (a @ old @ b) = a @ new @ py_replace old new b"
  using assms(3)
proof (induction a)
  case Nil
  from assms(1) show ?case by (cases old) auto
next
  case (Cons c a)
  from Cons.prems have np: "\<not> prefix old (c # a)" and na: "\<not> py_in old a" by auto
  from no_straddle [OF assms(1,2) np] have "\<not> prefix old (c # a @ old @ b)" by simp
  with assms(1) Cons.IH [OF na] show ?case by simp
qed

lemma enhance_ignores_user_id:
  "enhance_query_with_brain_context q (Some (ctx\<lparr>user_id := u\<rparr>)) =
   enhance_query_with_brain_context q (Some ctx)"
  by (simp add: enhance_query_with_brain_context_def)

text \<open>
  C2. With a context whose temporal flag is off the query comes back as it was, and with the
  flag on only the temporal sub-pattern is added: \<open>user_filter\<close> is built and never put
  into the text, so the augmented query has no existence filter and does not name the
  context's user.
\<close>

theorem enhance_drops_user_filter:
  "enhance_query_with_brain_context ''SELECT ?concept WHERE { ?concept a omnii:Concept . }''
     (Some (demo_context\<lparr>temporal_reasoning := False\<rparr>))
     = ''SELECT ?concept WHERE { ?concept a omnii:Concept . }'' \<and>
   enhance_query_with_brain_context ''SELECT ?concept WHERE { ?concept a omnii:Concept . }''
     (Some demo_context)
     = ''SELECT ?concept WHERE {'' @ temporal_filter @ '' ?concept a omnii:Concept . }'' \<and>
   \<not> py_in ''FILTER EXISTS''
     (enhance_query_with_brain_context ''SELECT ?concept WHERE { ?concept a omnii:Concept . }''
        (Some demo_context)) \<and>
   \<not> py_in (user_id demo_context)
     (enhance_query_with_brain_context ''SELECT ?concept WHERE { ?concept a omnii:Concept . }''
        (Some demo_context))"
  by (simp add: enhance_query_with_brain_context_def demo_context_def temporal_filter_def)

text \<open>
  C3, as the claim states it, fails: in a query with a sub-select the temporal sub-pattern
  is put after both occurrences of \<open>WHERE {\<close>, not after the first only.
\<close>

theorem enhance_rewrites_second_occurrence:
  "enhance_query_with_brain_context
     ''SELECT ?c WHERE { { SELECT ?c WHERE { ?c a omnii:Concept } } }'' (Some demo_context)
     = ''SELECT ?c WHERE {'' @ temporal_filter @ '' { SELECT ?c WHERE {'' @ temporal_filter @
       '' ?c a omnii:Concept } } }'' \<and>
   enhance_query_with_brain_context
     ''SELECT ?c WHERE { { SELECT ?c WHERE { ?c a omnii:Concept } } }'' (Some demo_context)
     \<noteq> ''SELECT ?c WHERE {'' @ temporal_filter @
       '' { SELECT ?c WHERE { ?c a omnii:Concept } } }''"
  by (simp add: enhance_query_with_brain_context_def demo_context_def temporal_filter_def)

text \<open>
  C3, amended. With the temporal flag set, a text without \<open>WHERE {\<close> comes back unchanged;
  in a text with the delimiter the temporal sub-pattern is put right after its first
  occurrence and the rest of the text is rewritten in the same way, so after every
  occurrence.
\<close>

theorem enhance_temporal_every_occurrence:
  assumes "temporal_reasoning ctx"
  shows "(\<not> py_in ''WHERE {'' q \<longrightarrow> enhance_query_with_brain_context q (Some ctx) = q) \<and>
         (\<not> py_in ''WHERE {'' a \<longrightarrow>
            enhance_query_with_brain_context (a @ ''WHERE {'' @ b) (Some ctx)
            = a @ ''WHERE {'' @ temporal_filter @ enhance_query_with_brain_context b (Some ctx))"
proof -
  have d: "''WHERE {'' \<noteq> []" and h: "hd ''WHERE {'' \<notin> set (tl ''WHERE {'')"
    by simp_all
  show ?thesis
    using assms py_replace_absent [OF d, of q "''WHERE {'' @ temporal_filter"]
      py_replace_first [OF d h, of a "''WHERE {'' @ temporal_filter" b]
    by (simp add: enhance_query_with_brain_context_def)
qed

theorem enhance_temporal_every_occurrence_witness:
  "temporal_reasoning demo_context \<and>
   \<not> py_in ''WHERE {'' ''ASK { ?s ?p ?o }'' \<and>
   enhance_query_with_brain_context ''ASK { ?s ?p ?o }'' (Some demo_context)
     = ''ASK { ?s ?p ?o }'' \<and>
   \<not> py_in ''WHERE {'' ''SELECT ?c '' \<and>
   enhance_query_with_brain_context
     (''SELECT ?c '' @ ''WHERE {'' @ '' { SELECT ?c WHERE { ?c a omnii:Concept } } }'')
     (Some demo_context)
     = ''SELECT ?c '' @ ''WHERE {'' @ temporal_filter @
       enhance_query_with_brain_context '' { SELECT ?c WHERE { ?c a omnii:Concept } } }''
         (Some demo_context)"
proof -
  have t: "temporal_reasoning demo_context"
    by (simp add: demo_context_def)
  have n1: "\<not> py_in ''WHERE {'' ''ASK { ?s ?p ?o }''" and n2: "\<not> py_in ''WHERE {'' ''SELECT ?c ''"
    by simp_all
  from enhance_temporal_every_occurrence [OF t, of "''ASK { ?s ?p ?o }''" "''SELECT ?c ''"
      "'' { SELECT ?c WHERE { ?c a omnii:Concept } } }''"] n1 n2 t
  show ?thesis by blast
qed

subsection \<open>Caches\<close>

lemma add_at_redis: "redis_client (add_at a ts s) = redis_client s"
  by (simp add: add_at_def)

lemma add_confidence_redis: "redis_client (add_confidence lib sj info s) = redis_client s"
  by (simp add: add_confidence_def fresh_BNode_def add_at_def split: option.splits)

lemma add_info_redis:
  "add_info lib cu info s = Inr (line, s1) \<Longrightarrow> redis_client s1 = redis_client s"
  by (auto simp: add_info_def add_confidence_redis add_at_redis split: sum.splits)

lemma add_information_redis:
  "add_information lib cu infos s chain = (e, s1, chain1) \<Longrightarrow> redis_client s1 = redis_client s"
proof (induction infos arbitrary: s chain)
  case Nil
  then show ?case by simp
next
  case (Cons info rest)
  show ?case
  proof (cases "add_info lib cu info s")
    case (Inl err)
    with Cons.prems show ?thesis by simp
  next
    case (Inr r)
    obtain line s0 where r: "r = (line, s0)" by (cases r)
    from Cons.prems Inr r have "add_information lib cu rest s0 (chain @ [line]) = (e, s1, chain1)"
      by simp
    from Cons.IH [OF this] add_info_redis [OF Inr [unfolded r]] show ?thesis by simp
  qed
qed

lemma evolve_concept_redis:
  "redis_client (snd (evolve_concept lib evolution_data s)) = redis_client s"
proof -
  let ?s1 = "add_at (graph s)
       [(CONCEPT (concept_id evolution_data), RDF ''type'', OMNII ''Concept''),
        (CONCEPT (concept_id evolution_data), RDFS ''label'',
           Literal (concept_name evolution_data) None None)] s"
  obtain e s2 chain where a: "add_information lib (CONCEPT (concept_id evolution_data))
      (new_information evolution_data) ?s1 [] = (e, s2, chain)"
    by (cases "add_information lib (CONCEPT (concept_id evolution_data))
      (new_information evolution_data) ?s1 []") auto
  from add_information_redis [OF a] have r: "redis_client s2 = redis_client s"
    by (simp add: add_at_redis)
  show ?thesis
    by (simp add: evolve_concept_def Let_def a r split: option.splits sum.splits)
qed

lemma clear_query_cache_none:
  "responsive r \<Longrightarrow> filter (\<lambda>(k, e). prefix ''rdf:query:'' k) (store (clear_query_cache r)) = []"
  by (auto simp: clear_query_cache_def filter_empty_conv)

lemma import_success_redis:
  assumes "import_rdf_data lib req s = (res, s')" and "import_success res"
  shows "redis_client s' = map_option clear_query_cache (redis_client s)"
proof -
  obtain ts err where p: "parse lib (data req) (format req) = (ts, err)"
    by (cases "parse lib (data req) (format req)")
  from assms show ?thesis
    by (auto simp: import_rdf_data_def p clear_state Let_def add_at_def import_failed_def
        split: if_splits option.splits)
qed

lemma redis_init: "redis_client (init r) = r"
  by (simp add: init_def setup_ontology_def add_at_def)

lemma import_valid_demo:
  "import_success (fst (import_rdf_data demo_library valid_import s)) \<and>
   redis_client (snd (import_rdf_data demo_library valid_import s))
     = map_option clear_query_cache (redis_client s)"
proof -
  have p: "parse demo_library (data valid_import) (format valid_import) =
      ([(URIRef ''http://example.org/c1'', RDF ''type'', OMNII ''Concept'')], None)"
    by (simp add: demo_library_def valid_import_def)
  have v: "validation valid_import" and c: "\<not> clear_graph valid_import"
    by (simp_all add: valid_import_def)
  show ?thesis
    by (simp add: import_rdf_data_def p v c Let_def add_at_def)
qed

text \<open>
  C8, as the claim states it, fails for imports: when the Redis commands raise, the error is
  logged, the import still reports success and the cached entry is still in the store.
\<close>

theorem import_keeps_cache_when_redis_fails:
  "import_success (fst (import_rdf_data demo_library valid_import (cached_state False))) \<and>
   map_option (\<lambda>r. map fst (store r))
     (redis_client (snd (import_rdf_data demo_library valid_import (cached_state False))))
     = Some [''rdf:query:abc'']"
  by (simp add: import_valid_demo cached_state_def redis_init clear_query_cache_def)

lemma add_at_grows:
  assumes "wf s"
  shows "wf (add_at (graph s) ts s) \<and> graph (add_at (graph s) ts s) = graph s \<and>
         set (base_graph (add_at (graph s) ts s)) = set (base_graph s) \<union> set ts"
  using assms
  by (simp add: wf_def add_at_def base_graph_def graph_at_def set_add_all)

lemma add_confidence_grows:
  assumes "wf s"
  shows "wf (add_confidence lib sj info s) \<and> graph (add_confidence lib sj info s) = graph s \<and>
         set (base_graph s) \<subseteq> set (base_graph (add_confidence lib sj info s))"
proof (cases "map_of info ''confidence''")
  case None
  with assms show ?thesis by (simp add: add_confidence_def)
next
  case (Some c)
  let ?s1 = "s\<lparr>bnode_counter := Suc (bnode_counter s)\<rparr>"
  have w: "wf ?s1" and g: "graph ?s1 = graph s" and b: "base_graph ?s1 = base_graph s"
    using assms by (simp_all add: wf_def base_graph_def graph_at_def)
  from add_at_grows [OF w] g b Some show ?thesis
    by (auto simp: add_confidence_def fresh_BNode_def)
qed

lemma add_info_grows:
  assumes "wf s" and "add_info lib cu info s = Inr (line, s1)"
  shows "wf s1 \<and> graph s1 = graph s \<and> set (base_graph s) \<subseteq> set (base_graph s1)"
proof -
  from assms(2) obtain sj p ob where
    s1: "s1 = add_confidence lib sj info (add_at (graph s) [(sj, p, ob)] s)"
    by (auto simp: add_info_def split: sum.splits)
  from add_at_grows [OF assms(1), of "[(sj, p, ob)]"]
    add_confidence_grows [of "add_at (graph s) [(sj, p, ob)] s" lib sj info]
  show ?thesis unfolding s1 by auto
qed

lemma add_information_grows:
  assumes "wf s" and "add_information lib cu infos s chain = (e, s1, chain1)"
  shows "wf s1 \<and> graph s1 = graph s \<and> set (base_graph s) \<subseteq> set (base_graph s1)"
  using assms
proof (induction infos arbitrary: s chain)
  case Nil
  then show ?case by simp
next
  case (Cons info rest)
  show ?case
  proof (cases "add_info lib cu info s")
    case (Inl err)
    with Cons.prems show ?thesis by simp
  next
    case (Inr r)
    obtain line s0 where r: "r = (line, s0)" by (cases r)
    from Cons.prems(2) Inr r have a: "add_information lib cu rest s0 (chain @ [line]) = (e, s1, chain1)"
      by simp
    from add_info_grows [OF Cons.prems(1) Inr [unfolded r]]
    have s0: "wf s0" "graph s0 = graph s" "set (base_graph s) \<subseteq> set (base_graph s0)"
      by simp_all
    from Cons.IH [OF s0(1) a] s0 show ?thesis by auto
  qed
qed

lemma evolve_concept_writes:
  assumes "wf s"
  shows "graph (snd (evolve_concept lib evolution_data s)) = graph s \<and>
         set (base_graph s) \<union>
           {(CONCEPT (concept_id evolution_data), RDF ''type'', OMNII ''Concept''),
            (CONCEPT (concept_id evolution_data), RDFS ''label'',
               Literal (concept_name evolution_data) None None)}
           \<subseteq> set (base_graph (snd (evolve_concept lib evolution_data s)))"
proof -
  let ?ts = "[(CONCEPT (concept_id evolution_data), RDF ''type'', OMNII ''Concept''),
        (CONCEPT (concept_id evolution_data), RDFS ''label'',
           Literal (concept_name evolution_data) None None)]"
  let ?s1 = "add_at (graph s) ?ts s"
  obtain e s2 chain where a: "add_information lib (CONCEPT (concept_id evolution_data))
      (new_information evolution_data) ?s1 [] = (e, s2, chain)"
    by (cases "add_information lib (CONCEPT (concept_id evolution_data))
      (new_information evolution_data) ?s1 []") auto
  from add_at_grows [OF assms, of ?ts]
  have s1: "wf ?s1" "graph ?s1 = graph s" "set (base_graph ?s1) = set (base_graph s) \<union> set ?ts"
    by simp_all
  from add_information_grows [OF s1(1) a] s1
  have s2: "graph s2 = graph s" "set (base_graph s) \<union> set ?ts \<subseteq> set (base_graph s2)"
    by auto
  have "snd (evolve_concept lib evolution_data s) = s2"
    by (simp add: evolve_concept_def Let_def a split: option.splits sum.splits)
  with s2 show ?thesis by simp
qed

text \<open>
  C8, amended. \<open>evolve_concept\<close> writes into the base graph and never touches the cache:
  after the call, whatever the request and whether or not it fails, \<open>self.graph\<close> is the
  same graph object, it holds the two triples of the concept next to every triple it held
  before, and the Redis store is the store before the call. A successful import whose
  Redis commands succeed removes every \<open>rdf:query:\<close> key and leaves the other keys as
  they were.
\<close>

theorem evolve_keeps_cache_import_clears:
  assumes "wf s"
    and "import_rdf_data lib req s = (res, s')" and "import_success res"
    and "redis_client s = Some r" and "responsive r"
  shows "redis_client (snd (evolve_concept lib evolution_data s)) = redis_client s \<and>
         graph (snd (evolve_concept lib evolution_data s)) = graph s \<and>
         set (base_graph s) \<union>
           {(CONCEPT (concept_id evolution_data), RDF ''type'', OMNII ''Concept''),
            (CONCEPT (concept_id evolution_data), RDFS ''label'',
               Literal (concept_name evolution_data) None None)}
           \<subseteq> set (base_graph (snd (evolve_concept lib evolution_data s))) \<and>
         (\<exists>r'. redis_client s' = Some r' \<and>
            filter (\<lambda>(k, e). prefix ''rdf:query:'' k) (store r') = [] \<and>
            store r' = filter (\<lambda>(k, e). \<not> prefix ''rdf:query:'' k) (store r))"
proof -
  from import_success_redis [OF assms(2,3)] assms(4)
  have "redis_client s' = Some (clear_query_cache r)" by simp
  moreover have "store (clear_query_cache r)
      = filter (\<lambda>(k, e). \<not> prefix ''rdf:query:'' k) (store r)"
    using assms(5) by (simp add: clear_query_cache_def)
  ultimately show ?thesis
    using clear_query_cache_none [OF assms(5)] evolve_concept_writes [OF assms(1)]
    by (simp add: evolve_concept_redis)
qed

theorem evolve_keeps_cache_import_clears_witness:
  "wf (cached_state True) \<and>
   import_success (fst (import_rdf_data demo_library valid_import (cached_state True))) \<and>
   map_option (\<lambda>r. map fst (store r)) (redis_client (cached_state True))
     = Some [''rdf:query:abc''] \<and>
   (CONCEPT ''123e4567-e89b-12d3-a456-426614174000'', RDF ''type'', OMNII ''Concept'')
     \<notin> set (base_graph (cached_state True)) \<and>
   (CONCEPT ''123e4567-e89b-12d3-a456-426614174000'', RDF ''type'', OMNII ''Concept'')
     \<in> set (base_graph (snd (evolve_concept demo_library demo_evolution (cached_state True)))) \<and>
   set (base_graph (cached_state True))
     \<subseteq> set (base_graph (snd (evolve_concept demo_library demo_evolution (cached_state True)))) \<and>
   map_option (\<lambda>r. map fst (store r))
     (redis_client (snd (evolve_concept demo_library demo_evolution (cached_state True))))
     = Some [''rdf:query:abc''] \<and>
   map_option store
     (redis_client (snd (import_rdf_data demo_library valid_import (cached_state True))))
     = Some []"
proof -
  let ?s = "cached_state True"
  let ?r = "\<lparr>store = [(''rdf:query:abc'', \<lparr>ttl = 1800, payload = cached_response\<rparr>)],
            responsive = True\<rparr>"
  have c: "redis_client ?s = Some ?r"
    by (simp add: cached_state_def redis_init)
  have w: "wf ?s"
    by (simp add: cached_state_def wf_init)
  have ok: "import_success (fst (import_rdf_data demo_library valid_import ?s))"
    by (simp add: import_valid_demo)
  have i: "import_rdf_data demo_library valid_import ?s =
      (fst (import_rdf_data demo_library valid_import ?s),
       snd (import_rdf_data demo_library valid_import ?s))"
    by simp
  have n: "(CONCEPT ''123e4567-e89b-12d3-a456-426614174000'', RDF ''type'', OMNII ''Concept'')
      \<notin> set (base_graph ?s)"
    by (simp add: cached_state_def base_graph_init ontology_triples_def CONCEPT_def OMNII_def
        TEMPORAL_def RDF_def OWL_def)
  have d: "concept_id demo_evolution = ''123e4567-e89b-12d3-a456-426614174000''"
    by (simp add: demo_evolution_def)
  from evolve_keeps_cache_import_clears [OF w i ok c, of demo_evolution]
  show ?thesis
    using n by (auto simp: ok c w d)
qed

subsection \<open>Query execution\<close>

lemma ontology_nonempty: "ontology_triples \<noteq> []"
  by (simp add: ontology_triples_def)

lemma apply_limit_take: "0 \<le> l \<Longrightarrow> apply_limit rs l = take (nat l) rs"
  by (auto simp: apply_limit_def py_slice_to_def)

lemma length_apply_limit: "0 \<le> l \<Longrightarrow> int (length (apply_limit rs l)) = min l (int (length rs))"
  by (auto simp: apply_limit_take)

lemma apply_reasoning_redis: "redis_client (snd (apply_reasoning lib s)) = redis_client s"
  by (simp add: apply_reasoning_def new_Graph_def add_at_def Let_def)

lemma execute_hit:
  "cache_lookup (redis_client s) (cache_key (request_hash qd)) = Some r \<Longrightarrow>
   execute_sparql_query lib qd s = (r, s)"
  by (simp add: execute_sparql_query_def)

lemma execute_miss:
  assumes "cache_lookup (redis_client s) (cache_key (request_hash qd)) = None"
    and "evaluate lib qd (request_hash qd) s = (Inr resp, s1)"
  shows "execute_sparql_query lib qd s =
    (resp, s1\<lparr>redis_client :=
       map_option (setex (cache_key (request_hash qd)) (if reasoning qd then 900 else 1800) resp)
         (redis_client s1)\<rparr>)"
  using assms by (simp add: execute_sparql_query_def)

lemma evaluate_redis: "redis_client (snd (evaluate lib qd h s)) = redis_client s"
  using apply_reasoning_redis [of lib s]
  by (auto simp: evaluate_def split: prod.splits sum.splits)

lemma cache_lookup_setex:
  "responsive r \<Longrightarrow> cache_lookup (Some (setex k t v r)) k = Some v"
  by (simp add: cache_lookup_def setex_def)

lemma success_build: "success (build_response lib qd h pq rows)"
  and hash_build: "response_hash (build_response lib qd h pq rows) = h"
  and reasoning_build: "reasoning_applied (build_response lib qd h pq rows) = reasoning qd"
  and results_build: "results (build_response lib qd h pq rows)
      = apply_limit (map (shape_row lib (PV lib pq)) rows) (limit qd)"
  and total_build: "total_results (build_response lib qd h pq rows)
      = int (length (apply_limit (map (shape_row lib (PV lib pq)) rows) (limit qd)))"
  by (simp_all add: build_response_def Let_def)

lemma evaluate_cases:
  assumes "evaluate lib qd h s = (Inr resp, s1)"
  shows "\<exists>pq rows.
     prepareQuery lib (enhance_query_with_brain_context (query qd) (brain_context qd)) = Inr pq \<and>
     (if query_type qd = ''SELECT''
      then graph_query lib
             (if reasoning qd
              then graph_at (snd (apply_reasoning lib s)) (fst (apply_reasoning lib s))
              else base_graph s) pq
      else Inr []) = Inr rows \<and>
     resp = build_response lib qd h pq rows"
  using assms
  by (auto simp: evaluate_def base_graph_def split: prod.splits sum.splits if_splits)

text \<open>
  C5, as the claim states it, fails in two ways. With a negative limit the slice
  \<open>results[:limit]\<close> drops rows from the end: limit \<open>-1\<close> on the 17 rows of the baseline
  gives 16. And the digest does not cover the limit: after the same query with limit 100
  has been cached, the request with limit 5 is served the cached response with its 17 rows.
\<close>

theorem limit_counterexamples:
  "success (fst (execute_sparql_query demo_library (select_all (- 1)) (init None))) \<and>
   total_results (fst (execute_sparql_query demo_library (select_all (- 1)) (init None))) = 16 \<and>
   success (fst (execute_sparql_query demo_library (select_all 5)
     (snd (execute_sparql_query demo_library (select_all 100) (init (Some empty_redis)))))) \<and>
   total_results (fst (execute_sparql_query demo_library (select_all 5)
     (snd (execute_sparql_query demo_library (select_all 100) (init (Some empty_redis)))))) = 17"
proof -
  let ?q = "''SELECT ?s ?p ?o WHERE { ?s ?p ?o }''"
  let ?rows = "map (\<lambda>(s, p, ob). [(''s'', s), (''p'', p), (''o'', ob)]) ontology_triples"
  have ev: "evaluate demo_library (select_all l) h (init r)
      = (Inr (build_response demo_library (select_all l) h ?q ?rows), init r)" for l h r
    by (simp add: evaluate_def select_all_def enhance_query_with_brain_context_def
        demo_library_def graph_at_def heap_init graph_init)
  have n: "length ?rows = 17"
    by (simp add: length_ontology)
  have h: "request_hash (select_all l) = request_hash (select_all 0)" for l
    by (simp add: request_hash_def generate_query_hash_def hash_input_def select_all_def)
  have m1: "cache_lookup (redis_client (init None)) k = None" for k
    by (simp add: cache_lookup_def redis_init)
  have t1: "total_results (build_response demo_library (select_all (- 1)) hh ?q ?rows) = 16" for hh
    using ontology_nonempty
    by (simp add: total_build apply_limit_def py_slice_to_def n select_all_def length_ontology)
  have m2: "cache_lookup (redis_client (init (Some empty_redis))) k = None" for k
    by (simp add: cache_lookup_def redis_init empty_redis_def)
  have t2: "total_results (build_response demo_library (select_all 100) hh ?q ?rows) = 17" for hh
    by (simp add: total_build apply_limit_def n select_all_def length_ontology)
  have hit: "cache_lookup
      (redis_client (snd (execute_sparql_query demo_library (select_all 100) (init (Some empty_redis)))))
      (cache_key (request_hash (select_all 5)))
      = Some (build_response demo_library (select_all 100) (request_hash (select_all 100)) ?q ?rows)"
  proof -
    have re: "responsive empty_redis"
      by (simp add: empty_redis_def)
    have nr: "\<not> reasoning (select_all 100)"
      by (simp add: select_all_def)
    show ?thesis
      by (simp add: execute_miss [OF m2 ev] redis_init h [of 100] h [of 5]
          cache_lookup_setex [OF re] nr)
  qed
  show ?thesis
    by (simp add: execute_miss [OF m1 ev] execute_hit [OF hit] success_build t1 t2)
qed

text \<open>
  C5, amended. When the response is not served from the cache and the limit is not
  negative, a successful SELECT gives the rows of the full evaluation cut to the limit
  afterwards: the engine is called without the limit, \<open>results\<close> are the first \<open>limit\<close>
  shaped rows, \<open>total_results\<close> is the minimum of the limit and the number of rows, and
  \<open>reasoning_applied\<close> is the request's flag.
\<close>

theorem limit_after_evaluation:
  assumes "cache_lookup (redis_client s) (cache_key (request_hash qd)) = None"
    and "0 \<le> limit qd"
    and "query_type qd = ''SELECT''"
    and "execute_sparql_query lib qd s = (resp, s')"
    and "success resp"
  shows "\<exists>pq rows.
     prepareQuery lib (enhance_query_with_brain_context (query qd) (brain_context qd)) = Inr pq \<and>
     graph_query lib
       (if reasoning qd
        then graph_at (snd (apply_reasoning lib s)) (fst (apply_reasoning lib s))
        else base_graph s) pq = Inr rows \<and>
     results resp = take (nat (limit qd)) (map (shape_row lib (PV lib pq)) rows) \<and>
     total_results resp = min (limit qd) (int (length rows)) \<and>
     reasoning_applied resp = reasoning qd"
proof -
  obtain r s1 where e: "evaluate lib qd (request_hash qd) s = (r, s1)"
    by (cases "evaluate lib qd (request_hash qd) s")
  show ?thesis
  proof (cases r)
    case (Inl err)
    with assms(1,4,5) e show ?thesis
      by (auto simp: execute_sparql_query_def failure_response_def)
  next
    case (Inr resp0)
    with assms(1,4) e have "resp = resp0"
      by (simp add: execute_sparql_query_def)
    with e Inr have "evaluate lib qd (request_hash qd) s = (Inr resp, s1)" by simp
    from evaluate_cases [OF this] assms(3) obtain pq rows where
      p: "prepareQuery lib (enhance_query_with_brain_context (query qd) (brain_context qd)) = Inr pq"
      and g: "graph_query lib
         (if reasoning qd
          then graph_at (snd (apply_reasoning lib s)) (fst (apply_reasoning lib s))
          else base_graph s) pq = Inr rows"
      and b: "resp = build_response lib qd (request_hash qd) pq rows"
      by auto
    from assms(2) have "results resp = take (nat (limit qd)) (map (shape_row lib (PV lib pq)) rows)"
      and "total_results resp = min (limit qd) (int (length rows))"
      and "reasoning_applied resp = reasoning qd"
      by (simp_all add: b results_build total_build reasoning_build apply_limit_take)
    with p g show ?thesis by blast
  qed
qed

theorem limit_after_evaluation_witness:
  "cache_lookup (redis_client (init None)) (cache_key (request_hash (select_all 5))) = None \<and>
   0 \<le> limit (select_all 5) \<and> query_type (select_all 5) = ''SELECT'' \<and>
   success (fst (execute_sparql_query demo_library (select_all 5) (init None))) \<and>
   total_results (fst (execute_sparql_query demo_library (select_all 5) (init None)))
     = min 5 (len ontology_triples) \<and>
   total_results (fst (execute_sparql_query demo_library (select_all 5) (init None))) = 5 \<and>
   reasoning_applied (fst (execute_sparql_query demo_library (select_all 5) (init None))) = False"
proof -
  let ?q = "''SELECT ?s ?p ?o WHERE { ?s ?p ?o }''"
  let ?rows = "map (\<lambda>(s, p, ob). [(''s'', s), (''p'', p), (''o'', ob)]) ontology_triples"
  let ?e = "execute_sparql_query demo_library (select_all 5) (init None)"
  have ev: "evaluate demo_library (select_all 5) h (init None)
      = (Inr (build_response demo_library (select_all 5) h ?q ?rows), init None)" for h
    by (simp add: evaluate_def select_all_def enhance_query_with_brain_context_def
        demo_library_def graph_at_def heap_init graph_init)
  have m: "cache_lookup (redis_client (init None)) (cache_key (request_hash (select_all 5))) = None"
    by (simp add: cache_lookup_def redis_init)
  have l: "0 \<le> limit (select_all 5)" and t: "query_type (select_all 5) = ''SELECT''"
    and nr: "\<not> reasoning (select_all 5)"
    by (simp_all add: select_all_def)
  have ok: "success (fst ?e)"
    by (simp add: execute_miss [OF m ev] success_build)
  have p: "prepareQuery demo_library
      (enhance_query_with_brain_context (query (select_all 5)) (brain_context (select_all 5)))
      = Inr ?q"
    by (simp add: select_all_def enhance_query_with_brain_context_def demo_library_def)
  have g: "graph_query demo_library (base_graph (init None)) ?q = Inr ?rows"
    by (simp add: demo_library_def base_graph_init)
  have "?e = (fst ?e, snd ?e)" by simp
  from limit_after_evaluation [OF m l t this ok] p g nr
  have "total_results (fst ?e) = min (limit (select_all 5)) (int (length ?rows))"
    and "reasoning_applied (fst ?e) = reasoning (select_all 5)"
    by auto
  then show ?thesis
    using m l t ok by (simp add: select_all_def length_ontology len_def)
qed

subsection \<open>The cache key\<close>

lemma length_hex_bytes: "length (concat (map hex_byte bs)) = 2 * length bs"
  by (induction bs) (simp_all add: hex_byte_def)

lemma length_le_bytes: "length (le_bytes k n) = k"
  by (simp add: le_bytes_def)

lemma length_md5_hexdigest: "length (md5_hexdigest m) = 32"
  by (simp add: md5_hexdigest_def length_hex_bytes length_le_bytes split: prod.splits)

lemma generate_query_hash_nonempty: "generate_query_hash qd \<noteq> []"
  using length_md5_hexdigest [of "hash_input qd"]
  by (auto simp: generate_query_hash_def)

lemma evaluate_demo_hashed:
  "q \<noteq> ''INVALID SPARQL SYNTAX'' \<Longrightarrow>
   evaluate demo_library (hashed_select h q) hh (init r)
     = (Inr (build_response demo_library (hashed_select h q) hh q
               (map (\<lambda>(s, p, ob). [(''s'', s), (''p'', p), (''o'', ob)]) ontology_triples)),
        init r)"
  by (simp add: evaluate_def hashed_select_def enhance_query_with_brain_context_def
      demo_library_def graph_at_def heap_init graph_init)

text \<open>
  C9, as the claim states it, fails for an empty \<open>query_hash\<close>: the empty string is false
  in \<open>query_hash or generate_query_hash(...)\<close>, so the digest is computed and is the key
  under which the response is stored.
\<close>

theorem empty_supplied_hash_is_replaced:
  "query_hash (hashed_select '''' ''SELECT ?s ?p ?o WHERE { ?s ?p ?o }'') = Some '''' \<and>
   response_hash (fst (execute_sparql_query demo_library
       (hashed_select '''' ''SELECT ?s ?p ?o WHERE { ?s ?p ?o }'') (init (Some empty_redis))))
     = generate_query_hash (hashed_select '''' ''SELECT ?s ?p ?o WHERE { ?s ?p ?o }'') \<and>
   map_option (\<lambda>r. map fst (store r))
     (redis_client (snd (execute_sparql_query demo_library
       (hashed_select '''' ''SELECT ?s ?p ?o WHERE { ?s ?p ?o }'') (init (Some empty_redis)))))
     = Some [''rdf:query:'' @
         generate_query_hash (hashed_select '''' ''SELECT ?s ?p ?o WHERE { ?s ?p ?o }'')] \<and>
   generate_query_hash (hashed_select '''' ''SELECT ?s ?p ?o WHERE { ?s ?p ?o }'') \<noteq> ''''"
proof -
  let ?qd = "hashed_select '''' ''SELECT ?s ?p ?o WHERE { ?s ?p ?o }''"
  have q: "query_hash ?qd = Some ''''" and nr: "\<not> reasoning ?qd"
    by (simp_all add: hashed_select_def)
  have h: "request_hash ?qd = generate_query_hash ?qd"
    by (simp add: request_hash_def q)
  have m: "cache_lookup (redis_client (init (Some empty_redis))) (cache_key (request_hash ?qd)) = None"
    by (simp add: cache_lookup_def redis_init empty_redis_def)
  have ev: "evaluate demo_library ?qd (request_hash ?qd) (init (Some empty_redis))
     = (Inr (build_response demo_library ?qd (request_hash ?qd) ''SELECT ?s ?p ?o WHERE { ?s ?p ?o }''
               (map (\<lambda>(s, p, ob). [(''s'', s), (''p'', p), (''o'', ob)]) ontology_triples)),
        init (Some empty_redis))"
    by (rule evaluate_demo_hashed) simp
  show ?thesis
    using generate_query_hash_nonempty [of ?qd]
    by (simp add: execute_miss [OF m ev] q hash_build redis_init nr)
      (simp add: h setex_def empty_redis_def cache_key_def)
qed

text \<open>
  C9, amended. A request that carries a non-empty \<open>query_hash\<close> uses that value as it is
  for the cache key, for the lookup and for the storage, and the digest of its content is
  not computed. So once a request with the hash has been answered successfully, with a
  Redis that responds, every request with the same hash gets that same response from the
  cache, whatever its query text.
\<close>

theorem supplied_hash_is_cache_key:
  assumes "query_hash qd1 = Some h" and "h \<noteq> []" and "query_hash qd2 = Some h"
    and "redis_client s = Some r" and "responsive r"
    and "execute_sparql_query lib qd1 s = (resp, s1)" and "success resp"
  shows "request_hash qd1 = h \<and> request_hash qd2 = h \<and>
         cache_lookup (redis_client s1) (cache_key h) = Some resp \<and>
         execute_sparql_query lib qd2 s1 = (resp, s1)"
proof -
  from assms(1,2,3) have h1: "request_hash qd1 = h" and h2: "request_hash qd2 = h"
    by (simp_all add: request_hash_def)
  have c: "cache_lookup (redis_client s1) (cache_key h) = Some resp"
  proof (cases "cache_lookup (redis_client s) (cache_key h)")
    case (Some cached)
    with assms(6) h1 show ?thesis
      by (auto simp: execute_sparql_query_def)
  next
    case None
    obtain x s0 where e: "evaluate lib qd1 h s = (x, s0)"
      by (cases "evaluate lib qd1 h s")
    from evaluate_redis [of lib qd1 h s] e assms(4) have r0: "redis_client s0 = Some r"
      by simp
    show ?thesis
    proof (cases x)
      case (Inl err)
      with None assms(6,7) h1 e show ?thesis
        by (auto simp: execute_sparql_query_def failure_response_def)
    next
      case (Inr resp0)
      with None assms(6) h1 e r0 cache_lookup_setex [OF assms(5)] show ?thesis
        by (auto simp: execute_sparql_query_def)
    qed
  qed
  from execute_hit [of s1 qd2 resp lib] c h2
  have "execute_sparql_query lib qd2 s1 = (resp, s1)" by simp
  with h1 h2 c show ?thesis by simp
qed

theorem supplied_hash_is_cache_key_witness:
  "query (hashed_select ''abc'' ''SELECT ?s ?p ?o WHERE { ?s ?p ?o }'')
     \<noteq> query (hashed_select ''abc'' ''SELECT ?x WHERE { ?x a omnii:Concept }'') \<and>
   success (fst (execute_sparql_query demo_library
     (hashed_select ''abc'' ''SELECT ?s ?p ?o WHERE { ?s ?p ?o }'') (init (Some empty_redis)))) \<and>
   response_hash (fst (execute_sparql_query demo_library
     (hashed_select ''abc'' ''SELECT ?s ?p ?o WHERE { ?s ?p ?o }'') (init (Some empty_redis))))
     = ''abc'' \<and>
   execute_sparql_query demo_library
     (hashed_select ''abc'' ''SELECT ?x WHERE { ?x a omnii:Concept }'')
     (snd (execute_sparql_query demo_library
        (hashed_select ''abc'' ''SELECT ?s ?p ?o WHERE { ?s ?p ?o }'') (init (Some empty_redis))))
     = execute_sparql_query demo_library
        (hashed_select ''abc'' ''SELECT ?s ?p ?o WHERE { ?s ?p ?o }'') (init (Some empty_redis))"
proof -
  let ?q1 = "hashed_select ''abc'' ''SELECT ?s ?p ?o WHERE { ?s ?p ?o }''"
  let ?q2 = "hashed_select ''abc'' ''SELECT ?x WHERE { ?x a omnii:Concept }''"
  let ?s = "init (Some empty_redis)"
  let ?e = "execute_sparql_query demo_library ?q1 ?s"
  have a1: "query_hash ?q1 = Some ''abc''" and a3: "query_hash ?q2 = Some ''abc''"
    and d: "query ?q1 \<noteq> query ?q2"
    by (simp_all add: hashed_select_def)
  have a2: "''abc'' \<noteq> []" by simp
  have a4: "redis_client ?s = Some empty_redis" by (simp add: redis_init)
  have a5: "responsive empty_redis" by (simp add: empty_redis_def)
  have h: "request_hash ?q1 = ''abc''"
    by (simp add: request_hash_def a1)
  have m: "cache_lookup (redis_client ?s) (cache_key (request_hash ?q1)) = None"
    by (simp add: cache_lookup_def redis_init empty_redis_def)
  have ev: "evaluate demo_library ?q1 (request_hash ?q1) ?s
     = (Inr (build_response demo_library ?q1 (request_hash ?q1) ''SELECT ?s ?p ?o WHERE { ?s ?p ?o }''
               (map (\<lambda>(s, p, ob). [(''s'', s), (''p'', p), (''o'', ob)]) ontology_triples)), ?s)"
    by (rule evaluate_demo_hashed) simp
  have ok: "success (fst ?e)" and rh: "response_hash (fst ?e) = ''abc''"
    by (simp_all add: execute_miss [OF m ev] success_build hash_build h)
  have "?e = (fst ?e, snd ?e)" by simp
  from supplied_hash_is_cache_key [OF a1 a2 a3 a4 a5 this ok]
  show ?thesis using d ok rh by simp
qed

subsection \<open>The digest\<close>

lemma hex_digit_inj: "a < 16 \<Longrightarrow> b < 16 \<Longrightarrow> hex_digit a = hex_digit b \<Longrightarrow> a = b"
proof -
  assume a: "a < 16" and b: "b < 16" and e: "hex_digit a = hex_digit b"
  have d: "distinct ''0123456789abcdef''" by simp
  from nth_eq_iff_index_eq [OF d, of a b] a b e show "a = b"
    by (simp add: hex_digit_def)
qed

lemma hex_byte_inj:
  assumes "a < 256" and "b < 256" and "hex_byte a = hex_byte b"
  shows "a = b"
proof -
  from assms(1,2) have d: "a div 16 < 16" "b div 16 < 16" and m: "a mod 16 < 16" "b mod 16 < 16"
    by simp_all
  from assms(3) have e1: "hex_digit (a div 16) = hex_digit (b div 16)"
    and e2: "hex_digit (a mod 16) = hex_digit (b mod 16)"
    by (simp_all add: hex_byte_def)
  from hex_digit_inj [OF d e1] hex_digit_inj [OF m e2]
  have "a div 16 = b div 16" and "a mod 16 = b mod 16" .
  then show ?thesis by (metis div_mult_mod_eq)
qed

lemma hex_byte_append:
  "hex_byte (of_char c1) @ x = hex_byte (of_char c2) @ y \<longleftrightarrow> c1 = c2 \<and> x = y"
proof
  assume e: "hex_byte (of_char c1) @ x = hex_byte (of_char c2) @ y"
  then have "hex_byte (of_char c1 :: nat) = hex_byte (of_char c2)" and xy: "x = y"
    by (simp_all add: hex_byte_def)
  from hex_byte_inj [OF _ _ this(1)] have "(of_char c1 :: nat) = of_char c2" by simp
  with xy show "c1 = c2 \<and> x = y" by simp
qed simp

lemma escape_first: "\<exists>a as. json_escape_char c = a # as \<and> a \<noteq> CHR 0x22"
  by (auto simp: json_escape_char_def)

lemma escape_append:
  "json_escape_char c1 @ x = json_escape_char c2 @ y \<longleftrightarrow> c1 = c2 \<and> x = y"
proof
  assume "json_escape_char c1 @ x = json_escape_char c2 @ y"
  then show "c1 = c2 \<and> x = y"
    unfolding json_escape_char_def
    by (simp add: hex_byte_append split: if_splits)
qed simp

lemma escaped_append:
  "concat (map json_escape_char s1) @ CHR 0x22 # x = concat (map json_escape_char s2) @ CHR 0x22 # y
   \<longleftrightarrow> s1 = s2 \<and> x = y"
proof
  assume "concat (map json_escape_char s1) @ CHR 0x22 # x
      = concat (map json_escape_char s2) @ CHR 0x22 # y"
  then show "s1 = s2 \<and> x = y"
  proof (induction s1 arbitrary: s2)
    case Nil
    show ?case
    proof (cases s2)
      case Nil
      with Nil.prems show ?thesis by simp
    next
      case (Cons c cs)
      from escape_first [of c] obtain a as where "json_escape_char c = a # as" "a \<noteq> CHR 0x22"
        by blast
      with Nil.prems Cons show ?thesis by simp
    qed
  next
    case (Cons c1 cs1)
    show ?case
    proof (cases s2)
      case Nil
      from escape_first [of c1] obtain a as where "json_escape_char c1 = a # as" "a \<noteq> CHR 0x22"
        by blast
      with Cons.prems Nil show ?thesis by simp
    next
      case (Cons c2 cs2)
      with Cons.prems have "json_escape_char c1 @ (concat (map json_escape_char cs1) @ CHR 0x22 # x)
          = json_escape_char c2 @ (concat (map json_escape_char cs2) @ CHR 0x22 # y)"
        by simp
      then have "c1 = c2" and "concat (map json_escape_char cs1) @ CHR 0x22 # x
          = concat (map json_escape_char cs2) @ CHR 0x22 # y"
        by (simp_all only: escape_append)
      with Cons.IH [of cs2] Cons show ?thesis by simp
    qed
  qed
qed simp

lemma json_string_append [simp]:
  "json_string s1 @ x = json_string s2 @ y \<longleftrightarrow> s1 = s2 \<and> x = y"
  by (simp add: json_string_def escaped_append)

lemma json_bool_append [simp]:
  "json_bool a @ x = json_bool b @ y \<longleftrightarrow> a = b \<and> x = y"
  by (cases a; cases b) (simp_all add: json_bool_def)

lemma digits_nonempty: "digits n \<noteq> []"
  by (subst digits.simps) simp

lemma digits_inj: "digits m = digits n \<Longrightarrow> m = n"
proof (induction m arbitrary: n rule: digits.induct)
  case (1 m)
  show ?case
  proof (cases "m < 10")
    case True
    show ?thesis
    proof (cases "n < 10")
      case n: True
      from "1.prems" True n have "hex_digit m = hex_digit n"
        by (simp add: digits.simps [of m] digits.simps [of n])
      from hex_digit_inj [OF _ _ this] True n show ?thesis by simp
    next
      case False
      with "1.prems" True digits_nonempty [of "n div 10"] show ?thesis
        by (simp add: digits.simps [of m] digits.simps [of n])
    qed
  next
    case False
    show ?thesis
    proof (cases "n < 10")
      case True
      with "1.prems" False digits_nonempty [of "m div 10"] show ?thesis
        by (simp add: digits.simps [of m] digits.simps [of n])
    next
      case n: False
      from "1.prems" False n have d: "digits (m div 10) = digits (n div 10)"
        and h: "hex_digit (m mod 10) = hex_digit (n mod 10)"
        by (simp_all add: digits.simps [of m] digits.simps [of n])
      from "1.IH" [OF False d] have "m div 10 = n div 10" .
      moreover from hex_digit_inj [OF _ _ h] have "m mod 10 = n mod 10" by simp
      ultimately show ?thesis by (metis div_mult_mod_eq)
    qed
  qed
qed

lemma digits_chars: "set (digits n) \<subseteq> set ''0123456789''"
proof (induction n rule: digits.induct)
  case (1 n)
  have h: "k < 10 \<Longrightarrow> hex_digit k \<in> set ''0123456789''" for k
  proof -
    assume "k < 10"
    then have "k \<in> {0, 1, 2, 3, 4, 5, 6, 7, 8, 9}" by auto
    then show ?thesis by (auto simp: hex_digit_def)
  qed
  show ?case
  proof (cases "n < 10")
    case True
    with h [of n] show ?thesis by (simp add: digits.simps [of n])
  next
    case False
    with "1.IH" h [of "n mod 10"] show ?thesis by (simp add: digits.simps [of n])
  qed
qed

lemma digits_no_sign: "CHR ''-'' \<notin> set (digits n)" and digits_no_comma: "CHR '','' \<notin> set (digits n)"
proof -
  show "CHR ''-'' \<notin> set (digits n)"
  proof
    assume "CHR ''-'' \<in> set (digits n)"
    from subsetD [OF digits_chars this] show False by simp
  qed
  show "CHR '','' \<notin> set (digits n)"
  proof
    assume "CHR '','' \<in> set (digits n)"
    from subsetD [OF digits_chars this] show False by simp
  qed
qed

lemma str_int_no_comma: "CHR '','' \<notin> set (str_int k)"
  by (simp add: str_int_def digits_no_comma)

lemma sign_not_digits: "CHR ''-'' # xs \<noteq> digits n"
proof
  assume "CHR ''-'' # xs = digits n"
  then have "CHR ''-'' \<in> set (digits n)" by (metis list.set_intros(1))
  with digits_no_sign show False by simp
qed

lemma str_int_inj: "str_int i = str_int j \<Longrightarrow> i = j"
proof -
  assume e: "str_int i = str_int j"
  show "i = j"
  proof (cases "i < 0")
    case True
    show ?thesis
    proof (cases "j < 0")
      case j: True
      with e True have "digits (nat (- i)) = digits (nat (- j))" by (simp add: str_int_def)
      from digits_inj [OF this] True j show ?thesis by simp
    next
      case False
      with e True sign_not_digits [of "digits (nat (- i))" "nat j"] show ?thesis
        by (simp add: str_int_def)
    qed
  next
    case False
    show ?thesis
    proof (cases "j < 0")
      case True
      with e False sign_not_digits [of "digits (nat (- j))" "nat i"] show ?thesis
        by (simp add: str_int_def)
    next
      case j: False
      with e False have "digits (nat i) = digits (nat j)" by (simp add: str_int_def)
      from digits_inj [OF this] False j show ?thesis by simp
    qed
  qed
qed

lemma split_at_separator:
  "c \<notin> set xs \<Longrightarrow> c \<notin> set ys \<Longrightarrow> xs @ c # x = ys @ c # y \<Longrightarrow> xs = ys \<and> x = y"
proof (induction xs arbitrary: ys)
  case Nil
  then show ?case by (cases ys) auto
next
  case (Cons a xs)
  then show ?case by (cases ys) auto
qed

lemma str_int_append [simp]:
  "str_int i @ CHR '','' # x = str_int j @ CHR '','' # y \<longleftrightarrow> i = j \<and> x = y"
proof
  assume e: "str_int i @ CHR '','' # x = str_int j @ CHR '','' # y"
  from split_at_separator [OF str_int_no_comma str_int_no_comma e] show "i = j \<and> x = y"
    by (auto dest: str_int_inj)
qed simp

lemma json_bool_inj [simp]: "json_bool a = json_bool b \<longleftrightarrow> a = b"
  by (cases a; cases b) (simp_all add: json_bool_def)






end
